theory Spec2Isabelle
  imports Complex_Main
begin

section \<open>EDM completion (pylocus/edm\_completion.py)\<close>

text \<open>
  The module holds three completers of a partially observed Euclidean distance matrix:
  \<open>optspace\<close>, \<open>rank_alternation\<close> and \<open>semidefinite_relaxation\<close>. They work on
  numpy arrays of floating-point numbers, mutate some of them in place and call three
  routines that live elsewhere (\<open>opt_space\<close>, \<open>low_rank_approximation\<close> and the
  convex solver behind \<open>Problem.solve\<close>).

  Conventions of the embedding:
  \<^item> an array entry is a real number or NaN (\<open>fl\<close>). Rounding, infinities and the sign of
    zero are not modelled; NaN is, because the mean of an empty selection is NaN and every
    comparison with NaN is false;
  \<^item> a 2-D array is its shape together with the list of its rows (\<open>matrix\<close>); the
    arrays a caller passes are well formed (\<open>wf_matrix\<close>); a 1-D array is a list;
  \<^item> arrays live in a store (a list of cells, an address is an index), so that in-place
    assignment, rebinding of a name and aliasing are told apart;
  \<^item> a Python exception is a value \<open>Inl e\<close>; every call returns its outcome together with
    the store it leaves behind, also when it raises;
  \<^item> the three outside routines are parameters. They are taken to leave their arguments
    unchanged and to hand back fresh arrays; they may raise;
  \<^item> \<open>print_out\<close> is taken at its default \<open>False\<close>: the printing branches are left out.
\<close>

subsection \<open>Numbers\<close>

datatype fl = NaN | Fin real

fun fadd :: "fl \<Rightarrow> fl \<Rightarrow> fl" where
  "fadd (Fin a) (Fin b) = Fin (a + b)"
| "fadd _ _ = NaN"

fun fsub :: "fl \<Rightarrow> fl \<Rightarrow> fl" where
  "fsub (Fin a) (Fin b) = Fin (a - b)"
| "fsub _ _ = NaN"

fun fmul :: "fl \<Rightarrow> fl \<Rightarrow> fl" where
  "fmul (Fin a) (Fin b) = Fin (a * b)"
| "fmul _ _ = NaN"

fun fsqrt :: "fl \<Rightarrow> fl" where
  "fsqrt (Fin a) = (if a < 0 then NaN else Fin (sqrt a))"
| "fsqrt NaN = NaN"

text \<open>Comparisons: false as soon as one side is NaN.\<close>

fun flt :: "fl \<Rightarrow> fl \<Rightarrow> bool" where
  "flt (Fin a) (Fin b) = (a < b)"
| "flt _ _ = False"

definition fgt :: "fl \<Rightarrow> fl \<Rightarrow> bool" where
  "fgt x y = flt y x"

fun feq :: "fl \<Rightarrow> fl \<Rightarrow> bool" where
  "feq (Fin a) (Fin b) = (a = b)"
| "feq _ _ = False"

definition fsum :: "fl list \<Rightarrow> fl" where
  "fsum xs = foldl fadd (Fin 0) xs"

text \<open>
  \<open>np.mean\<close> of a 1-D selection: the sum divided by the count; on an empty selection numpy
  warns and returns NaN (0.0 / 0), it does not raise.
\<close>

definition np_mean :: "fl list \<Rightarrow> fl" where
  "np_mean xs =
     (if xs = [] then NaN
      else (case fsum xs of NaN \<Rightarrow> NaN | Fin s \<Rightarrow> Fin (s / real (length xs))))"

subsection \<open>Arrays\<close>

datatype matrix = Mat (nrows: nat) (ncols: nat) (rows: "fl list list")

datatype error = IndexError | ValueError | UnboundLocalError | ExternalError

definition wf_matrix :: "matrix \<Rightarrow> bool" where
  "wf_matrix A =
     (length (rows A) = nrows A \<and> list_all (\<lambda>row. length row = ncols A) (rows A))"

text \<open>\<open>A[i, j]\<close>\<close>

definition ent :: "matrix \<Rightarrow> nat \<Rightarrow> nat \<Rightarrow> fl" where
  "ent A i j = rows A ! i ! j"

text \<open>The array of shape \<open>(r, c)\<close> whose entry \<open>(i, j)\<close> is \<open>f i j\<close>.\<close>

definition mk :: "nat \<Rightarrow> nat \<Rightarrow> (nat \<Rightarrow> nat \<Rightarrow> fl) \<Rightarrow> matrix" where
  "mk r c f = Mat r c (map (\<lambda>i. map (\<lambda>j. f i j) [0..<c]) [0..<r])"

definition same_shape :: "matrix \<Rightarrow> matrix \<Rightarrow> bool" where
  "same_shape A B = (nrows A = nrows B \<and> ncols A = ncols B)"

text \<open>\<open>A.T\<close>\<close>

definition np_T :: "matrix \<Rightarrow> matrix" where
  "np_T A = mk (ncols A) (nrows A) (\<lambda>i j. ent A j i)"

text \<open>
  Elementwise binary operations follow numpy's broadcasting of two 2-D shapes: along each
  axis the lengths are equal or one of them is 1 (and is stretched); otherwise ValueError.
\<close>

definition bdim :: "nat \<Rightarrow> nat \<Rightarrow> nat option" where
  "bdim a b = (if a = b then Some a else if a = 1 then Some b
               else if b = 1 then Some a else None)"

definition bget :: "matrix \<Rightarrow> nat \<Rightarrow> nat \<Rightarrow> fl" where
  "bget A i j = ent A (if nrows A = 1 then 0 else i) (if ncols A = 1 then 0 else j)"

definition np_binop :: "(fl \<Rightarrow> fl \<Rightarrow> fl) \<Rightarrow> matrix \<Rightarrow> matrix \<Rightarrow> error + matrix" where
  "np_binop f A B =
     (case bdim (nrows A) (nrows B) of
        None \<Rightarrow> Inl ValueError
      | Some r \<Rightarrow>
          (case bdim (ncols A) (ncols B) of
             None \<Rightarrow> Inl ValueError
           | Some c \<Rightarrow> Inr (mk r c (\<lambda>i j. f (bget A i j) (bget B i j)))))"

definition np_add :: "matrix \<Rightarrow> matrix \<Rightarrow> error + matrix" where
  "np_add A B = np_binop fadd A B"

definition np_sub :: "matrix \<Rightarrow> matrix \<Rightarrow> error + matrix" where
  "np_sub A B = np_binop fsub A B"

text \<open>\<open>k * A\<close> for a Python float \<open>k\<close>\<close>

definition scale :: "fl \<Rightarrow> matrix \<Rightarrow> matrix" where
  "scale k A = mk (nrows A) (ncols A) (\<lambda>i j. fmul k (ent A i j))"

text \<open>Matrix product of 2-D arrays; ValueError when the inner lengths differ.\<close>

definition np_dot :: "matrix \<Rightarrow> matrix \<Rightarrow> error + matrix" where
  "np_dot A B =
     (if ncols A = nrows B
      then Inr (mk (nrows A) (ncols B)
                  (\<lambda>i j. fsum (map (\<lambda>k. fmul (ent A i k) (ent B k j)) [0..<ncols A])))
      else Inl ValueError)"

text \<open>\<open>np.diag\<close> of a 2-D array (its diagonal) and \<open>np.outer\<close> of two 1-D arrays\<close>

definition np_diag :: "matrix \<Rightarrow> fl list" where
  "np_diag A = map (\<lambda>i. ent A i i) [0..<min (nrows A) (ncols A)]"

definition np_outer :: "fl list \<Rightarrow> fl list \<Rightarrow> matrix" where
  "np_outer a b = mk (length a) (length b) (\<lambda>i j. fmul (a ! i) (b ! j))"

text \<open>\<open>A[A > 0]\<close>: the selected entries, in row-major order\<close>

definition select_pos :: "matrix \<Rightarrow> fl list" where
  "select_pos A = filter (\<lambda>x. fgt x (Fin 0)) (concat (rows A))"

text \<open>\<open>A[A == 0] = v\<close>\<close>

definition fill_zeros :: "matrix \<Rightarrow> fl \<Rightarrow> matrix" where
  "fill_zeros A v =
     mk (nrows A) (ncols A) (\<lambda>i j. if feq (ent A i j) (Fin 0) then v else ent A i j)"

text \<open>
  \<open>C[M > 0] = M[M > 0]\<close>: the boolean index must have the shape of \<open>C\<close> (IndexError
  otherwise); the selected values of \<open>M\<close> land, in order, on the selected places of \<open>C\<close>.
\<close>

definition impose_known :: "matrix \<Rightarrow> matrix \<Rightarrow> error + matrix" where
  "impose_known C M =
     (if same_shape C M
      then Inr (mk (nrows C) (ncols C)
                  (\<lambda>i j. if fgt (ent M i j) (Fin 0) then ent M i j else ent C i j))
      else Inl IndexError)"

text \<open>
  \<open>A[range(N), range(N)] = 0.0\<close>: the entries \<open>(i, i)\<close>, \<open>i < N\<close>; IndexError when one of
  them lies outside \<open>A\<close>.
\<close>

definition zero_diag :: "nat \<Rightarrow> matrix \<Rightarrow> error + matrix" where
  "zero_diag N A =
     (if N \<le> nrows A \<and> N \<le> ncols A
      then Inr (mk (nrows A) (ncols A) (\<lambda>i j. if i = j \<and> i < N then Fin 0 else ent A i j))
      else Inl IndexError)"

text \<open>\<open>A[A < 0] = 0.0\<close>\<close>

definition clip_neg :: "matrix \<Rightarrow> matrix" where
  "clip_neg A =
     mk (nrows A) (ncols A) (\<lambda>i j. if flt (ent A i j) (Fin 0) then Fin 0 else ent A i j)"

text \<open>\<open>A > 0\<close> as an array of booleans, read as 1.0 and 0.0 where it is used as a number\<close>

definition mask_pos :: "matrix \<Rightarrow> matrix" where
  "mask_pos A =
     mk (nrows A) (ncols A) (\<lambda>i j. if fgt (ent A i j) (Fin 0) then Fin 1 else Fin 0)"

text \<open>\<open>W[M == 0] = 0.0\<close>; the boolean index must have the shape of \<open>W\<close>.\<close>

definition zero_where_zero :: "matrix \<Rightarrow> matrix \<Rightarrow> error + matrix" where
  "zero_where_zero W M =
     (if same_shape W M
      then Inr (mk (nrows W) (ncols W)
                  (\<lambda>i j. if feq (ent M i j) (Fin 0) then Fin 0 else ent W i j))
      else Inl IndexError)"

text \<open>Frobenius norm, \<open>np.linalg.norm\<close> of a 2-D array\<close>

definition frob_norm :: "matrix \<Rightarrow> fl" where
  "frob_norm A = fsqrt (fsum (map (\<lambda>x. fmul x x) (concat (rows A))))"

subsection \<open>The store\<close>

type_synonym addr = nat
type_synonym heap = "matrix list"

definition alloc :: "heap \<Rightarrow> matrix \<Rightarrow> addr \<times> heap" where
  "alloc h A = (length h, h @ [A])"

subsection \<open>optspace\<close>

text \<open>
  \<open>opt_space\<close> (module \<open>opt_space\<close>) is a parameter: from the masked matrix, the rank, the
  iteration budget and the tolerance it returns the factors \<open>X\<close>, \<open>S\<close>, \<open>Y\<close>, or raises.
\<close>

type_synonym opt_space_fn = "matrix \<Rightarrow> int \<Rightarrow> nat \<Rightarrow> fl \<Rightarrow> error + (matrix \<times> matrix \<times> matrix)"

text \<open>\<open>X.dot(S.dot(Y.T))\<close> (line 25)\<close>

definition reconstruct :: "matrix \<Rightarrow> matrix \<Rightarrow> matrix \<Rightarrow> error + matrix" where
  "reconstruct X S Y =
     (case np_dot S (np_T Y) of
        Inl e \<Rightarrow> Inl e
      | Inr SY \<Rightarrow> np_dot X SY)"

definition optspace ::
  "opt_space_fn \<Rightarrow> heap \<Rightarrow> addr \<Rightarrow> int \<Rightarrow> nat \<Rightarrow> fl \<Rightarrow> (error + addr) \<times> heap" where
  "optspace opt_space h edm_missing rank niter tol =
     (let N = nrows (h ! edm_missing) in
      case opt_space (h ! edm_missing) rank niter tol of
        Inl e \<Rightarrow> (Inl e, h)
      | Inr (X, S, Y) \<Rightarrow>
          (case reconstruct X S Y of
             Inl e \<Rightarrow> (Inl e, h)
           | Inr P \<Rightarrow>
               let (edm_complete, h1) = alloc h P in
               (case zero_diag N (h1 ! edm_complete) of
                  Inl e \<Rightarrow> (Inl e, h1)
                | Inr P' \<Rightarrow> (Inr edm_complete, h1[edm_complete := P']))))"

subsection \<open>rank\_alternation\<close>

text \<open>
  \<open>low_rank_approximation\<close> (module \<open>basics\<close>) is a parameter: from an array and a rank it
  returns a new array, or raises.
\<close>

type_synonym lra_fn = "matrix \<Rightarrow> int \<Rightarrow> error + matrix"

text \<open>
  Lines 59 to 61, the structural imposition on the array named \<open>edm_complete\<close> (at address
  \<open>c\<close>): two assignments in place, then the name is bound to a new array.
\<close>

definition impose_structure :: "nat \<Rightarrow> heap \<Rightarrow> addr \<Rightarrow> (error + addr) \<times> heap" where
  "impose_structure N h c =
     (case zero_diag N (h ! c) of
        Inl e \<Rightarrow> (Inl e, h)
      | Inr A1 \<Rightarrow>
          let h1 = h[c := A1];
              h2 = h1[c := clip_neg (h1 ! c)]
          in (case np_add (h2 ! c) (np_T (h2 ! c)) of
                Inl e \<Rightarrow> (Inl e, h2)
              | Inr S \<Rightarrow>
                  let (c', h3) = alloc h2 (scale (Fin (1/2)) S) in (Inr c', h3)))"

text \<open>
  One turn of the loop (lines 52 to 65). The loop state is the address bound to
  \<open>edm_complete\<close> and the list \<open>errs\<close>.
\<close>

definition ra_body ::
  "lra_fn \<Rightarrow> addr \<Rightarrow> int \<Rightarrow> nat \<Rightarrow> addr option \<Rightarrow> addr \<times> fl list \<Rightarrow> heap
     \<Rightarrow> (error + (addr \<times> fl list)) \<times> heap" where
  "ra_body low_rank_approximation edm_missing rank N edm_true s h =
     (case s of (c, errs) \<Rightarrow>
      (case low_rank_approximation (h ! c) rank of
         Inl e \<Rightarrow> (Inl e, h)
       | Inr B \<Rightarrow>
           let (c1, h1) = alloc h B in
           (case impose_known (h1 ! c1) (h1 ! edm_missing) of
              Inl e \<Rightarrow> (Inl e, h1)
            | Inr B1 \<Rightarrow>
                (case impose_structure N (h1[c1 := B1]) c1 of
                   (Inl e, h2) \<Rightarrow> (Inl e, h2)
                 | (Inr c2, h2) \<Rightarrow>
                     (case edm_true of
                        None \<Rightarrow> (Inr (c2, errs), h2)
                      | Some t \<Rightarrow>
                          (case np_sub (h2 ! c2) (h2 ! t) of
                             Inl e \<Rightarrow> (Inl e, h2)
                           | Inr D \<Rightarrow> (Inr (c2, errs @ [frob_norm D]), h2)))))))"

fun ra_loop ::
  "lra_fn \<Rightarrow> addr \<Rightarrow> int \<Rightarrow> nat \<Rightarrow> addr option \<Rightarrow> nat \<Rightarrow> addr \<times> fl list \<Rightarrow> heap
     \<Rightarrow> (error + (addr \<times> fl list)) \<times> heap" where
  "ra_loop lra edm_missing rank N edm_true 0 s h = (Inr s, h)"
| "ra_loop lra edm_missing rank N edm_true (Suc k) s h =
     (case ra_body lra edm_missing rank N edm_true s h of
        (Inl e, h') \<Rightarrow> (Inl e, h')
      | (Inr s', h') \<Rightarrow> ra_loop lra edm_missing rank N edm_true k s' h')"

text \<open>
  \<open>niter\<close> is the number of turns of \<open>for i in range(niter)\<close>. The result is the address of
  the completed matrix and the list of errors.
\<close>

definition rank_alternation ::
  "lra_fn \<Rightarrow> heap \<Rightarrow> addr \<Rightarrow> int \<Rightarrow> nat \<Rightarrow> addr option
     \<Rightarrow> (error + (addr \<times> fl list)) \<times> heap" where
  "rank_alternation low_rank_approximation h edm_missing rank niter edm_true =
     (let N = nrows (h ! edm_missing);
          (edm_complete, h1) = alloc h (h ! edm_missing);
          h2 = h1[edm_complete :=
                    fill_zeros (h1 ! edm_complete) (np_mean (select_pos (h1 ! edm_complete)))]
      in ra_loop low_rank_approximation edm_missing rank N edm_true niter (edm_complete, []) h2)"

subsection \<open>semidefinite\_relaxation\<close>

text \<open>
  The expressions the code hands to the convex solver. \<open>Semidef n\<close> is the variable \<open>H\<close>;
  scalar-valued expressions are kept apart from matrix-valued ones.
\<close>

datatype expr =
    Const matrix
  | Semidef nat
  | MatMul expr expr
  | Transp expr
  | Diag expr
  | Add expr expr
  | Sub expr expr
  | Scale fl expr
  | MulElemwise expr expr

datatype scalar_expr =
    Trace expr
  | Norm expr
  | SAdd scalar_expr scalar_expr
  | SSub scalar_expr scalar_expr
  | SScale fl scalar_expr

datatype objective = Maximize scalar_expr | Minimize scalar_expr

text \<open>The numeric kernel transform (lines 71 to 74).\<close>

definition kappa :: "matrix \<Rightarrow> error + matrix" where
  "kappa gram =
     (let n = nrows gram;
          e = replicate n (Fin 1)
      in case np_add (np_outer (np_diag gram) e) (np_outer e (np_diag gram)) of
           Inl x \<Rightarrow> Inl x
         | Inr A \<Rightarrow> np_sub A (scale (Fin 2) gram))"

text \<open>
  The symbolic kernel transform (lines 76 to 78): \<open>*\<close> between expressions is the matrix
  product, \<open>diag\<close> the solver library's atom, \<open>e\<close> the column of \<open>n\<close> ones.
\<close>

definition kappa_cvx :: "expr \<Rightarrow> nat \<Rightarrow> expr" where
  "kappa_cvx gram n =
     (let e = mk n 1 (\<lambda>i j. Fin 1)
      in Sub (Add (MatMul (Diag gram) (Const (np_T e)))
                  (MatMul (Const e) (Transp (Diag gram))))
             (Scale (Fin 2) gram))"

text \<open>
  The value of a matrix expression once \<open>H\<close> has the value \<open>Hv\<close>, as the solver library
  defines its atoms: \<open>diag\<close> turns a vector into a diagonal matrix and a square matrix into
  the column of its diagonal; a 1-by-1 operand of a product or a sum is a scalar; other
  operands must fit, without broadcasting.
\<close>

definition is_scalar :: "matrix \<Rightarrow> bool" where
  "is_scalar A = (nrows A = 1 \<and> ncols A = 1)"

definition cvx_diag :: "matrix \<Rightarrow> error + matrix" where
  "cvx_diag A =
     (if nrows A = 1 \<or> ncols A = 1
      then (let v = concat (rows A); n = length v
            in Inr (mk n n (\<lambda>i j. if i = j then v ! i else Fin 0)))
      else if nrows A = ncols A
      then Inr (mk (nrows A) 1 (\<lambda>i j. ent A i i))
      else Inl ValueError)"

definition cvx_mul :: "matrix \<Rightarrow> matrix \<Rightarrow> error + matrix" where
  "cvx_mul A B =
     (if is_scalar A then Inr (scale (ent A 0 0) B)
      else if is_scalar B then Inr (scale (ent B 0 0) A)
      else np_dot A B)"

definition cvx_binop :: "(fl \<Rightarrow> fl \<Rightarrow> fl) \<Rightarrow> matrix \<Rightarrow> matrix \<Rightarrow> error + matrix" where
  "cvx_binop f A B =
     (if same_shape A B \<or> is_scalar A \<or> is_scalar B then np_binop f A B
      else Inl ValueError)"

definition lift2 ::
  "(matrix \<Rightarrow> matrix \<Rightarrow> error + matrix) \<Rightarrow> error + matrix \<Rightarrow> error + matrix
     \<Rightarrow> error + matrix" where
  "lift2 g a b =
     (case a of Inl x \<Rightarrow> Inl x
      | Inr A \<Rightarrow> (case b of Inl x \<Rightarrow> Inl x | Inr B \<Rightarrow> g A B))"

fun expr_value :: "matrix \<Rightarrow> expr \<Rightarrow> error + matrix" where
  "expr_value Hv (Const A) = Inr A"
| "expr_value Hv (Semidef n) = Inr Hv"
| "expr_value Hv (MatMul a b) = lift2 cvx_mul (expr_value Hv a) (expr_value Hv b)"
| "expr_value Hv (Transp a) =
     (case expr_value Hv a of Inl x \<Rightarrow> Inl x | Inr A \<Rightarrow> Inr (np_T A))"
| "expr_value Hv (Diag a) =
     (case expr_value Hv a of Inl x \<Rightarrow> Inl x | Inr A \<Rightarrow> cvx_diag A)"
| "expr_value Hv (Add a b) = lift2 (cvx_binop fadd) (expr_value Hv a) (expr_value Hv b)"
| "expr_value Hv (Sub a b) = lift2 (cvx_binop fsub) (expr_value Hv a) (expr_value Hv b)"
| "expr_value Hv (Scale k a) =
     (case expr_value Hv a of Inl x \<Rightarrow> Inl x | Inr A \<Rightarrow> Inr (scale k A))"
| "expr_value Hv (MulElemwise a b) =
     lift2 (\<lambda>A B. if same_shape A B then np_binop fmul A B else Inl ValueError)
       (expr_value Hv a) (expr_value Hv b)"

text \<open>
  The centering basis (lines 90 and 91), an \<open>n\<close> by \<open>n - 1\<close> array: row 0 holds
  \<open>-1 / sqrt n\<close>, row \<open>i + 1\<close> holds row \<open>i\<close> of the identity minus \<open>1 / (n + sqrt n)\<close>.
\<close>

definition centering :: "nat \<Rightarrow> matrix" where
  "centering n =
     mk n (n - 1)
        (\<lambda>i j. if i = 0 then Fin (- 1 / sqrt (real n))
                else Fin ((if i - 1 = j then 1 else 0) - 1 / (real n + sqrt (real n))))"

text \<open>
  The convex solver is a parameter: from the objective and the options it gives the value
  of \<open>H\<close> after \<open>prob.solve\<close> (\<open>None\<close> when the solver found none), or raises; what the
  library raises while \<open>Maximize\<close>, \<open>Minimize\<close> and \<open>Problem\<close> are built from ill-fitting
  operands counts as raised by it. The keyword arguments are a dictionary from names to
  values.
\<close>

type_synonym kwargs = "string \<rightharpoonup> string"
type_synonym solver_fn = "objective \<Rightarrow> kwargs \<Rightarrow> error + matrix option"

text \<open>
  Lines 84 to 87: without \<open>W\<close> the name is bound to a new array, the mask of the observed
  entries; a given \<open>W\<close> is overwritten in place wherever the input is zero.
\<close>

definition sdr_weights :: "heap \<Rightarrow> addr \<Rightarrow> addr option \<Rightarrow> (error + addr) \<times> heap" where
  "sdr_weights h edm_missing W =
     (case W of
        None \<Rightarrow> (let (w, h') = alloc h (mask_pos (h ! edm_missing)) in (Inr w, h'))
      | Some w \<Rightarrow>
          (case zero_where_zero (h ! w) (h ! edm_missing) of
             Inl e \<Rightarrow> (Inl e, h)
           | Inr W' \<Rightarrow> (Inr w, h[w := W'])))"

text \<open>
  Lines 89 to 101, for \<open>n > 0\<close>: the objective over \<open>H\<close>; \<open>None\<close> when neither branch
  assigns \<open>obj\<close>.
\<close>

definition sdr_objective :: "string \<Rightarrow> fl \<Rightarrow> matrix \<Rightarrow> matrix \<Rightarrow> objective option" where
  "sdr_objective method lamda W edm_missing =
     (let n = nrows edm_missing;
          V = centering n;
          H = Semidef (n - 1);
          G = MatMul (MatMul (Const V) H) (Const (np_T V));
          edm_optimize = kappa_cvx G n;
          fit = SScale lamda
                  (Norm (MulElemwise (Const W) (Sub edm_optimize (Const edm_missing))))
      in if method = ''maximize'' then Some (Maximize (SSub (Trace H) fit))
         else if method = ''minimize'' then Some (Minimize (SAdd (Trace H) fit))
         else None)"

text \<open>
  The call. \<open>np.ones(n - 1)\<close> raises ValueError for \<open>n = 0\<close>; \<open>Problem(obj)\<close> raises
  UnboundLocalError when \<open>obj\<close> was never assigned; without a value for \<open>H\<close> the name
  \<open>edm_complete\<close> is bound to the input array itself. The value of \<open>H\<close> is a numpy
  matrix, so \<open>V * H.value * V.T\<close> is a chain of two matrix products. For \<open>n = 1\<close> the
  variable \<open>H\<close> has dimension 0; the statements below about this function take \<open>n > 1\<close>.
\<close>

definition semidefinite_relaxation ::
  "solver_fn \<Rightarrow> heap \<Rightarrow> addr \<Rightarrow> fl \<Rightarrow> addr option \<Rightarrow> kwargs \<Rightarrow> (error + addr) \<times> heap" where
  "semidefinite_relaxation solve h edm_missing lamda W kwargs =
     (let method = (case kwargs ''method'' of None \<Rightarrow> ''maximize'' | Some m \<Rightarrow> m);
          options = [''solver'' \<mapsto> ''CVXOPT''] ++ (kwargs(''method'' := None))
      in
      case sdr_weights h edm_missing W of
        (Inl e, h1) \<Rightarrow> (Inl e, h1)
      | (Inr w, h1) \<Rightarrow>
          let n = nrows (h1 ! edm_missing) in
          if n = 0 then (Inl ValueError, h1)
          else
            (case sdr_objective method lamda (h1 ! w) (h1 ! edm_missing) of
               None \<Rightarrow> (Inl UnboundLocalError, h1)
             | Some obj \<Rightarrow>
                 (case solve obj options of
                    Inl e \<Rightarrow> (Inl e, h1)
                  | Inr (Some Hvalue) \<Rightarrow>
                      let V = centering n in
                      (case np_dot V Hvalue of
                         Inl e \<Rightarrow> (Inl e, h1)
                       | Inr VH \<Rightarrow>
                           (case np_dot VH (np_T V) of
                              Inl e \<Rightarrow> (Inl e, h1)
                            | Inr Gbest \<Rightarrow>
                                (case kappa Gbest of
                                   Inl e \<Rightarrow> (Inl e, h1)
                                 | Inr K \<Rightarrow>
                                     let (edm_complete, h2) = alloc h1 K
                                     in (Inr edm_complete, h2))))
                  | Inr None \<Rightarrow> (Inr edm_missing, h1))))"

subsection \<open>Stand-ins for the outside routines, for concrete runs\<close>

text \<open>
  \<open>lra_keep\<close> returns its argument: the best approximation of rank at most \<open>r\<close> of an array
  whose rank is at most \<open>r\<close> already. \<open>opt_space_const\<close> returns given factors,
  \<open>solve_none\<close> finds no value for \<open>H\<close>, \<open>solve_value\<close> finds the given one.
\<close>

definition lra_keep :: lra_fn where
  "lra_keep A r = Inr A"

definition opt_space_const :: "matrix \<Rightarrow> matrix \<Rightarrow> matrix \<Rightarrow> opt_space_fn" where
  "opt_space_const X S Y A r niter tol = Inr (X, S, Y)"

definition solve_none :: solver_fn where
  "solve_none ob options = Inr None"

definition solve_value :: "matrix \<Rightarrow> solver_fn" where
  "solve_value Hv ob options = Inr (Some Hv)"

text \<open>The array with the given rows.\<close>

definition of_rows :: "real list list \<Rightarrow> matrix" where
  "of_rows xs = Mat (length xs) (case xs of [] \<Rightarrow> 0 | r # _ \<Rightarrow> length r) (map (map Fin) xs)"

subsection \<open>Notions used in the statements\<close>

text \<open>
  \<open>clipv x\<close> is the value of an entry \<open>x\<close> after \<open>A[A < 0] = 0.0\<close>; \<open>known M B\<close> is the
  entry of \<open>B\<close> after \<open>B[M > 0] = M[M > 0]\<close>; \<open>kernel G i j\<close> is
  \<open>G[i,i] + G[j,j] - 2 * G[i,j]\<close>; \<open>finite_matrix A\<close> says that no entry of \<open>A\<close>
  is NaN; \<open>extends h h'\<close> says that every cell of the
  store \<open>h\<close> is still there in \<open>h'\<close>, with the same content.
\<close>

definition clipv :: "fl \<Rightarrow> fl" where
  "clipv x = (if flt x (Fin 0) then Fin 0 else x)"

definition known :: "matrix \<Rightarrow> matrix \<Rightarrow> nat \<Rightarrow> nat \<Rightarrow> fl" where
  "known M B i j = (if fgt (ent M i j) (Fin 0) then ent M i j else ent B i j)"

definition kernel :: "matrix \<Rightarrow> nat \<Rightarrow> nat \<Rightarrow> fl" where
  "kernel G i j = fsub (fadd (ent G i i) (ent G j j)) (fmul (Fin 2) (ent G i j))"

definition finite_matrix :: "matrix \<Rightarrow> bool" where
  "finite_matrix A = list_all (list_all (\<lambda>x. x \<noteq> NaN)) (rows A)"

definition extends :: "heap \<Rightarrow> heap \<Rightarrow> bool" where
  "extends h h' = (length h \<le> length h' \<and> (\<forall>a<length h. h' ! a = h ! a))"

section \<open>Properties\<close>

subsection \<open>Arrays\<close>

lemma nrows_mk [simp]: "nrows (mk r c f) = r"
  by (simp add: mk_def)

lemma ncols_mk [simp]: "ncols (mk r c f) = c"
  by (simp add: mk_def)

lemma ent_mk [simp]: "i < r \<Longrightarrow> j < c \<Longrightarrow> ent (mk r c f) i j = f i j"
  by (simp add: mk_def ent_def)

lemma wf_mk [simp]: "wf_matrix (mk r c f)"
  by (simp add: mk_def wf_matrix_def list_all_iff)

lemma mk_cong: "(\<And>i j. i < r \<Longrightarrow> j < c \<Longrightarrow> f i j = g i j) \<Longrightarrow> mk r c f = mk r c g"
  by (simp add: mk_def)

lemma mk_ent: "wf_matrix A \<Longrightarrow> mk (nrows A) (ncols A) (ent A) = A"
proof -
  assume wf: "wf_matrix A"
  let ?R = "map (\<lambda>i. map (\<lambda>j. rows A ! i ! j) [0..<ncols A]) [0..<nrows A]"
  have "?R = rows A"
  proof (rule nth_equalityI)
    show "length ?R = length (rows A)"
      using wf by (simp add: wf_matrix_def)
  next
    fix i assume "i < length ?R"
    then have i: "i < nrows A" by simp
    then have "length (rows A ! i) = ncols A"
      using wf by (simp add: wf_matrix_def list_all_length)
    then have "map (\<lambda>j. rows A ! i ! j) [0..<ncols A] = rows A ! i"
      by (metis map_nth)
    then show "?R ! i = rows A ! i"
      using i by simp
  qed
  then show ?thesis
    by (cases A) (simp add: mk_def ent_def)
qed

lemma mk_eq_self:
  "wf_matrix A \<Longrightarrow> nrows A = r \<Longrightarrow> ncols A = c \<Longrightarrow>
   (\<And>i j. i < r \<Longrightarrow> j < c \<Longrightarrow> f i j = ent A i j) \<Longrightarrow> mk r c f = A"
  using mk_cong[of r c f "ent A"] mk_ent[of A] by simp

lemma shape_clip_neg [simp]: "nrows (clip_neg A) = nrows A" "ncols (clip_neg A) = ncols A"
  by (simp_all add: clip_neg_def)

lemma shape_scale [simp]: "nrows (scale k A) = nrows A" "ncols (scale k A) = ncols A"
  by (simp_all add: scale_def)

lemma shape_fill_zeros [simp]:
  "nrows (fill_zeros A v) = nrows A" "ncols (fill_zeros A v) = ncols A"
  by (simp_all add: fill_zeros_def)

lemma shape_np_T [simp]: "nrows (np_T A) = ncols A" "ncols (np_T A) = nrows A"
  by (simp_all add: np_T_def)

lemma half_double: "fmul (Fin (1/2)) (fadd x x) = x"
  by (cases x) simp_all

lemma zero_diag_square:
  "nrows A = N \<Longrightarrow> ncols A = N \<Longrightarrow>
   zero_diag N A = Inr (mk N N (\<lambda>i j. if i = j then Fin 0 else ent A i j))"
  by (auto simp: zero_diag_def intro!: mk_cong)

lemma symmetrize_square:
  "nrows A = N \<Longrightarrow> ncols A = N \<Longrightarrow>
   np_add A (np_T A) = Inr (mk N N (\<lambda>i j. fadd (ent A i j) (ent A j i)))"
  by (auto simp: np_add_def np_binop_def bdim_def bget_def np_T_def intro!: mk_cong)

subsection \<open>The store\<close>

lemma extends_refl [simp]: "extends h h"
  by (simp add: extends_def)

lemma extends_trans: "extends h h1 \<Longrightarrow> extends h1 h2 \<Longrightarrow> extends h h2"
  by (auto simp: extends_def)

lemma extends_append [simp]: "extends h (h @ xs)"
  by (simp add: extends_def nth_append)

lemma extends_nth: "extends h h' \<Longrightarrow> a < length h \<Longrightarrow> h' ! a = h ! a"
  by (simp add: extends_def)

lemma extends_update: "extends h h' \<Longrightarrow> length h \<le> c \<Longrightarrow> extends h (h'[c := v])"
  by (auto simp: extends_def)

subsection \<open>The structural imposition\<close>

lemma impose_structure_square:
  assumes "c < length h" "nrows (h ! c) = N" "ncols (h ! c) = N"
  shows "impose_structure N h c =
           (Inr (length h),
            h[c := clip_neg (mk N N (\<lambda>i j. if i = j then Fin 0 else ent (h ! c) i j))]
              @ [mk N N (\<lambda>i j. if i = j then Fin 0
                   else fmul (Fin (1/2))
                          (fadd (clipv (ent (h ! c) i j)) (clipv (ent (h ! c) j i))))])"
proof -
  let ?Z = "mk N N (\<lambda>i j. if i = j then Fin 0 else ent (h ! c) i j)"
  have cl: "clip_neg ?Z = mk N N (\<lambda>i j. if i = j then Fin 0 else clipv (ent (h ! c) i j))"
    by (auto simp: clip_neg_def clipv_def intro!: mk_cong)
  have "scale (Fin (1/2)) (mk N N (\<lambda>i j. fadd (ent (clip_neg ?Z) i j) (ent (clip_neg ?Z) j i)))
        = mk N N (\<lambda>i j. if i = j then Fin 0
                   else fmul (Fin (1/2))
                          (fadd (clipv (ent (h ! c) i j)) (clipv (ent (h ! c) j i))))"
    unfolding cl by (auto simp: scale_def intro!: mk_cong)
  then show ?thesis
    using assms
    by (simp add: impose_structure_def zero_diag_square Let_def alloc_def
        symmetrize_square[of _ N])
qed

lemma impose_structure_frame:
  "impose_structure N h c = (r, h') \<Longrightarrow>
   length h \<le> length h' \<and> (\<forall>a<length h. a \<noteq> c \<longrightarrow> h' ! a = h ! a)"
  by (auto simp: impose_structure_def Let_def alloc_def nth_append split: sum.splits)

text \<open>
  C9. The structural imposition of rank alternation (zero the diagonal, clip the negative
  entries, average with the transpose), run on an array that has a zero diagonal, no
  negative entry and equals its transpose, succeeds and binds \<open>edm_complete\<close> to a new
  array equal to the old one; the old one is left as it was.
\<close>

theorem impose_structure_idempotent:
  assumes c: "c < length h" and wf: "wf_matrix (h ! c)" and N: "nrows (h ! c) = N"
    and sym: "np_T (h ! c) = h ! c"
    and diag: "\<forall>i<N. ent (h ! c) i i = Fin 0"
    and nonneg: "\<forall>i<N. \<forall>j<N. \<not> flt (ent (h ! c) i j) (Fin 0)"
  shows "\<exists>c' h'. impose_structure N h c = (Inr c', h') \<and> h' ! c' = h ! c \<and> h' ! c = h ! c"
proof -
  let ?A = "h ! c"
  have "ncols (np_T ?A) = ncols ?A" using sym by simp
  then have M: "ncols ?A = N" using N by simp
  have s: "ent ?A j i = ent ?A i j" if "i < N" "j < N" for i j
  proof -
    have "ent (np_T ?A) i j = ent ?A j i"
      using that N M by (simp add: np_T_def)
    then show ?thesis using sym by simp
  qed
  have z: "mk N N (\<lambda>i j. if i = j then Fin 0 else ent ?A i j) = ?A"
    using wf N M diag by (auto intro!: mk_eq_self)
  have r: "mk N N (\<lambda>i j. if i = j then Fin 0
             else fmul (Fin (1/2)) (fadd (clipv (ent ?A i j)) (clipv (ent ?A j i)))) = ?A"
    using wf N M diag nonneg s by (auto simp: clipv_def half_double intro!: mk_eq_self)
  have cl: "clip_neg ?A = ?A"
    using wf N M nonneg by (auto simp: clip_neg_def intro!: mk_eq_self)
  show ?thesis
    using c by (simp add: impose_structure_square[OF c N M] z r cl nth_append)
qed

theorem impose_structure_idempotent_witness:
  "wf_matrix (of_rows [[0, 1], [1, 0]]) \<and>
   np_T (of_rows [[0, 1], [1, 0]]) = of_rows [[0, 1], [1, 0]] \<and>
   (\<exists>c' h'. impose_structure 2 [of_rows [[0, 1], [1, 0]]] 0 = (Inr c', h') \<and>
      h' ! c' = of_rows [[0, 1], [1, 0]] \<and> h' ! 0 = of_rows [[0, 1], [1, 0]])"
proof -
  let ?A = "of_rows [[0, 1], [1, 0]]"
  have wf: "wf_matrix ([?A] ! 0)"
    by (simp add: wf_matrix_def of_rows_def)
  have N: "nrows ([?A] ! 0) = 2"
    by (simp add: of_rows_def)
  have sym: "np_T ([?A] ! 0) = [?A] ! 0"
    by (simp add: np_T_def of_rows_def mk_def ent_def numeral_2_eq_2)
  have diag: "\<forall>i<2. ent ([?A] ! 0) i i = Fin 0"
    by (simp add: of_rows_def ent_def numeral_2_eq_2 less_Suc_eq)
  have nonneg: "\<forall>i<2. \<forall>j<2. \<not> flt (ent ([?A] ! 0) i j) (Fin 0)"
    by (simp add: of_rows_def ent_def numeral_2_eq_2 less_Suc_eq)
  have "0 < length [?A]" by simp
  from impose_structure_idempotent[OF this wf N sym diag nonneg] wf sym
  show ?thesis by simp
qed

subsection \<open>rank\_alternation\<close>

lemma ra_body_frame:
  "ra_body lra m rank N tr s h = (r, h') \<Longrightarrow> extends h h'"
  by (auto simp: ra_body_def alloc_def extends_def nth_append
      split: sum.splits prod.splits option.splits dest!: impose_structure_frame)

lemma ra_loop_frame:
  "ra_loop lra m rank N tr k s h = (r, h') \<Longrightarrow> extends h h'"
proof (induction k arbitrary: s h)
  case 0 then show ?case by simp
next
  case (Suc k)
  obtain r1 h1 where b: "ra_body lra m rank N tr s h = (r1, h1)"
    by (cases "ra_body lra m rank N tr s h")
  then have e1: "extends h h1" by (rule ra_body_frame)
  show ?case
  proof (cases r1)
    case (Inl e) with Suc.prems b e1 show ?thesis by simp
  next
    case (Inr s1)
    with Suc.prems b have "ra_loop lra m rank N tr k s1 h1 = (r, h')" by simp
    from Suc.IH[OF this] e1 show ?thesis by (rule extends_trans[rotated])
  qed
qed

lemma rank_alternation_frame:
  "rank_alternation lra h m rank niter tr = (r, h') \<Longrightarrow> extends h h'"
proof -
  assume a: "rank_alternation lra h m rank niter tr = (r, h')"
  let ?h2 = "(h @ [h ! m])[length h := fill_zeros ((h @ [h ! m]) ! length h)
                 (np_mean (select_pos ((h @ [h ! m]) ! length h)))]"
  from a have "ra_loop lra m rank (nrows (h ! m)) tr niter (length h, []) ?h2 = (r, h')"
    by (simp add: rank_alternation_def alloc_def Let_def)
  then have "extends ?h2 h'" by (rule ra_loop_frame)
  moreover have "extends h ?h2" by (simp add: extends_update)
  ultimately show ?thesis by (rule extends_trans[rotated])
qed

lemma ra_body_Inr:
  assumes r: "ra_body lra m rank N tr (c, errs) h = (Inr (c', errs'), h')"
    and m: "m < length h" and sq: "nrows (h ! m) = N" "ncols (h ! m) = N"
  shows "\<exists>B. lra (h ! c) rank = Inr B \<and> same_shape B (h ! m) \<and> c' < length h' \<and>
           h' ! c' = mk N N (\<lambda>i j. if i = j then Fin 0
             else fmul (Fin (1/2)) (fadd (clipv (known (h ! m) B i j)) (clipv (known (h ! m) B j i))))"
proof -
  from r obtain B where B: "lra (h ! c) rank = Inr B"
    by (auto simp: ra_body_def split: sum.splits)
  from r B m have ss: "same_shape B (h ! m)"
    by (auto simp: ra_body_def alloc_def nth_append impose_known_def split: if_splits)
  let ?B1 = "mk (nrows B) (ncols B) (\<lambda>i j. known (h ! m) B i j)"
  have ik: "impose_known B (h ! m) = Inr ?B1"
    using ss by (simp add: impose_known_def known_def)
  let ?h1 = "(h @ [B])[length h := ?B1]"
  have shp: "nrows (?h1 ! length h) = N" "ncols (?h1 ! length h) = N"
    using ss sq by (simp_all add: same_shape_def)
  have istr: "impose_structure N ?h1 (length h) =
     (Inr (length ?h1),
      ?h1[length h := clip_neg (mk N N (\<lambda>i j. if i = j then Fin 0 else ent (?h1 ! length h) i j))]
        @ [mk N N (\<lambda>i j. if i = j then Fin 0
             else fmul (Fin (1/2)) (fadd (clipv (ent (?h1 ! length h) i j))
                                         (clipv (ent (?h1 ! length h) j i))))])"
    by (rule impose_structure_square) (use shp in simp_all)
  have ents: "mk N N (\<lambda>i j. if i = j then Fin 0
             else fmul (Fin (1/2)) (fadd (clipv (ent (?h1 ! length h) i j))
                                         (clipv (ent (?h1 ! length h) j i))))
     = mk N N (\<lambda>i j. if i = j then Fin 0
             else fmul (Fin (1/2)) (fadd (clipv (known (h ! m) B i j)) (clipv (known (h ! m) B j i))))"
    using ss sq by (auto simp: same_shape_def intro!: mk_cong)
  from r B m ik have "impose_structure N ?h1 (length h) = (Inr c', h')"
    unfolding ra_body_def
    by (auto simp: alloc_def nth_append split: option.splits sum.splits prod.splits)
  then have "c' = length ?h1 \<and> h' = ?h1[length h := clip_neg (mk N N (\<lambda>i j. if i = j then Fin 0 else ent (?h1 ! length h) i j))]
        @ [mk N N (\<lambda>i j. if i = j then Fin 0
             else fmul (Fin (1/2)) (fadd (clipv (ent (?h1 ! length h) i j))
                                         (clipv (ent (?h1 ! length h) j i))))]"
    unfolding istr by simp
  then show ?thesis using B ss ents by (auto simp: nth_append)
qed

lemma ra_loop_last:
  assumes "ra_loop lra m rank N tr (Suc k) s h = (Inr s', h')"
  shows "\<exists>s0 h0. extends h h0 \<and> ra_body lra m rank N tr s0 h0 = (Inr s', h')"
  using assms
proof (induction k arbitrary: s h)
  case 0
  then have "ra_body lra m rank N tr s h = (Inr s', h')"
    by (auto split: sum.splits prod.splits)
  then show ?case using extends_refl by blast
next
  case (Suc k)
  from Suc.prems obtain s1 h1 where b: "ra_body lra m rank N tr s h = (Inr s1, h1)"
    and l: "ra_loop lra m rank N tr (Suc k) s1 h1 = (Inr s', h')"
    by (auto split: sum.splits prod.splits)
  from Suc.IH[OF l] obtain s0 h0 where "extends h1 h0" "ra_body lra m rank N tr s0 h0 = (Inr s', h')"
    by blast
  moreover have "extends h h1" using b by (rule ra_body_frame)
  ultimately show ?case using extends_trans by blast
qed

lemma rank_alternation_last:
  assumes "rank_alternation lra h m rank (Suc k) tr = (Inr (c', errs'), h')" "m < length h"
  shows "\<exists>c errs h0. extends h h0 \<and>
           ra_body lra m rank (nrows (h ! m)) tr (c, errs) h0 = (Inr (c', errs'), h')"
proof -
  let ?h2 = "(h @ [h ! m])[length h := fill_zeros ((h @ [h ! m]) ! length h)
                 (np_mean (select_pos ((h @ [h ! m]) ! length h)))]"
  from assms(1) have "ra_loop lra m rank (nrows (h ! m)) tr (Suc k) (length h, []) ?h2
       = (Inr (c', errs'), h')"
    by (simp add: rank_alternation_def alloc_def Let_def)
  from ra_loop_last[OF this] obtain s0 h0 where e: "extends ?h2 h0"
    and b: "ra_body lra m rank (nrows (h ! m)) tr s0 h0 = (Inr (c', errs'), h')" by blast
  have "extends h ?h2" by (simp add: extends_update)
  from this e have "extends h h0" by (rule extends_trans)
  with b show ?thesis by (cases s0) auto
qed

lemma rank_alternation_result:
  assumes r: "rank_alternation lra h m rank (Suc k) tr = (Inr (c', errs'), h')"
    and m: "m < length h" and sq: "nrows (h ! m) = N" "ncols (h ! m) = N"
  shows "\<exists>B. same_shape B (h ! m) \<and> c' < length h' \<and>
           h' ! c' = mk N N (\<lambda>i j. if i = j then Fin 0
             else fmul (Fin (1/2)) (fadd (clipv (known (h ! m) B i j)) (clipv (known (h ! m) B j i))))"
proof -
  from rank_alternation_last[OF r m] obtain c errs h0 where e: "extends h h0"
    and b: "ra_body lra m rank (nrows (h ! m)) tr (c, errs) h0 = (Inr (c', errs'), h')" by blast
  from e m have hm: "h0 ! m = h ! m" "m < length h0" by (auto simp: extends_def)
  from b sq have b': "ra_body lra m rank N tr (c, errs) h0 = (Inr (c', errs'), h')" by simp
  from hm sq have sq0: "nrows (h0 ! m) = N" "ncols (h0 ! m) = N" by simp_all
  from ra_body_Inr[OF b' hm(2) sq0] show ?thesis unfolding hm(1) by blast
qed

subsection \<open>Runs of rank\_alternation on small inputs\<close>

lemmas run_defs = rank_alternation_def alloc_def Let_def of_rows_def ra_body_def lra_keep_def
      impose_known_def same_shape_def impose_structure_def zero_diag_def clip_neg_def np_add_def
      np_binop_def bdim_def bget_def np_T_def scale_def fill_zeros_def np_mean_def select_pos_def
      fsum_def fgt_def mk_def ent_def numeral_2_eq_2

lemma run_symmetric: "rank_alternation lra_keep [of_rows [[0,1],[1,0]]] 0 1 1 None =
   (Inr (3, []), [of_rows [[0,1],[1,0]], of_rows [[1,1],[1,1]], of_rows [[0,1],[1,0]], of_rows [[0,1],[1,0]]])"
  by (simp add: run_defs)

lemma run_diagonal: "rank_alternation lra_keep [of_rows [[1,1],[1,1]]] 0 1 1 None =
   (Inr (3, []), [of_rows [[1,1],[1,1]], of_rows [[1,1],[1,1]], of_rows [[0,1],[1,0]], of_rows [[0,1],[1,0]]])"
  by (simp add: run_defs)

lemma run_asymmetric: "rank_alternation lra_keep [of_rows [[0,4],[2,0]]] 0 1 1 None =
   (Inr (3, []), [of_rows [[0,4],[2,0]], of_rows [[3,4],[2,3]], of_rows [[0,4],[2,0]], of_rows [[0,3],[3,0]]])"
  by (simp add: run_defs)

lemma run_niter_zero:
  "rank_alternation lra_keep [of_rows [[0,1],[1,0]]] 0 1 0 None
   = (Inr (1, []), [of_rows [[0,1],[1,0]], of_rows [[1,1],[1,1]]])"
  by (simp add: run_defs)

lemma run_rank_two:
  "rank_alternation lra_keep [of_rows [[0,1],[1,0]]] 0 2 1 None =
   (Inr (3, []), [of_rows [[0,1],[1,0]], of_rows [[1,1],[1,1]], of_rows [[0,1],[1,0]], of_rows [[0,1],[1,0]]])"
  by (simp add: run_defs)

lemma run_not_square:
  "rank_alternation lra_keep [of_rows [[0,5]]] 0 1 1 None =
   (Inr (3, []), [of_rows [[0,5]], of_rows [[5,5]], of_rows [[0,5]], of_rows [[0,5/2],[5/2,5]]])"
  by (simp add: run_defs)

lemma run_all_zero:
  "rank_alternation lra_keep [of_rows [[0,0],[0,0]]] 0 1 1 None =
   (Inr (3, []), [of_rows [[0,0],[0,0]], Mat 2 2 [[NaN,NaN],[NaN,NaN]],
                  Mat 2 2 [[Fin 0,NaN],[NaN,Fin 0]], Mat 2 2 [[Fin 0,NaN],[NaN,Fin 0]]])"
  by (simp add: run_defs)

lemma run_all_zero_niter_zero:
  "rank_alternation lra_keep [of_rows [[0,0],[0,0]]] 0 1 0 None =
   (Inr (1, []), [of_rows [[0,0],[0,0]], Mat 2 2 [[NaN,NaN],[NaN,NaN]]])"
  by (simp add: run_defs)

subsection \<open>Measured entries\<close>

text \<open>
  C1, as amended. Let the input be an \<open>N\<close> by \<open>N\<close> array and \<open>niter\<close> at least 1. For
  every pair \<open>i \<noteq> j\<close> whose entry is observed (\<open>> 0\<close>) and equals the entry at \<open>(j, i)\<close>,
  the matrix that \<open>rank_alternation\<close> returns has the measured value at \<open>(i, j)\<close>.
\<close>

theorem rank_alternation_keeps_symmetric_observations:
  assumes r: "rank_alternation lra h edm_missing rank niter edm_true = (Inr (c, errs), h')"
    and m: "edm_missing < length h"
    and sq: "nrows (h ! edm_missing) = N" "ncols (h ! edm_missing) = N"
    and n: "0 < niter" and ij: "i < N" "j < N" "i \<noteq> j"
    and pos: "fgt (ent (h ! edm_missing) i j) (Fin 0)"
    and sym: "ent (h ! edm_missing) j i = ent (h ! edm_missing) i j"
  shows "ent (h' ! c) i j = ent (h ! edm_missing) i j"
proof -
  from n obtain k where k: "niter = Suc k" by (cases niter) auto
  from rank_alternation_result[OF r[unfolded k] m sq] obtain B where
    res: "h' ! c = mk N N (\<lambda>i j. if i = j then Fin 0
             else fmul (Fin (1/2)) (fadd (clipv (known (h ! edm_missing) B i j))
                                         (clipv (known (h ! edm_missing) B j i))))"
    by blast
  let ?x = "ent (h ! edm_missing) i j"
  have kij: "known (h ! edm_missing) B i j = ?x" using pos by (simp add: known_def)
  have kji: "known (h ! edm_missing) B j i = ?x" using pos sym by (simp add: known_def)
  have cl: "clipv ?x = ?x" using pos by (cases ?x) (auto simp: clipv_def fgt_def)
  show ?thesis using ij by (simp add: res kij kji cl half_double)
qed

text \<open>
  The run on \<open>[[0, 1], [1, 0]]\<close> with one turn: entry \<open>(0, 1)\<close> is kept.
\<close>

theorem rank_alternation_keeps_symmetric_observations_witness:
  "fgt (ent (of_rows [[0,1],[1,0]]) 0 1) (Fin 0) \<and>
   ent (of_rows [[0,1],[1,0]]) 1 0 = ent (of_rows [[0,1],[1,0]]) 0 1 \<and>
   fst (rank_alternation lra_keep [of_rows [[0,1],[1,0]]] 0 1 1 None) = Inr (3, []) \<and>
   ent (snd (rank_alternation lra_keep [of_rows [[0,1],[1,0]]] 0 1 1 None) ! 3) 0 1
     = ent (of_rows [[0,1],[1,0]]) 0 1"
proof -
  let ?h = "[of_rows [[0,1],[1,0]]]"
  have pos: "fgt (ent (?h ! 0) 0 1) (Fin 0)"
    by (simp add: of_rows_def ent_def fgt_def)
  have sym: "ent (?h ! 0) 1 0 = ent (?h ! 0) 0 1"
    by (simp add: of_rows_def ent_def)
  have sq: "nrows (?h ! 0) = 2" "ncols (?h ! 0) = 2"
    by (simp_all add: of_rows_def)
  have "ent ([of_rows [[0,1],[1,0]], of_rows [[1,1],[1,1]], of_rows [[0,1],[1,0]],
               of_rows [[0,1],[1,0]]] ! 3) 0 1 = ent (?h ! 0) 0 1"
    by (rule rank_alternation_keeps_symmetric_observations[OF run_symmetric _ sq _ _ _ _ pos sym])
       simp_all
  with pos sym show ?thesis
    unfolding run_symmetric fst_conv snd_conv by simp
qed

text \<open>
  C1 as stated fails: an observed diagonal entry is zeroed (\<open>[[1, 1], [1, 1]]\<close>, entry
  \<open>(0, 0)\<close>), and an observed entry whose mirror holds another value is averaged with it
  (\<open>[[0, 4], [2, 0]]\<close>, entry \<open>(0, 1)\<close> becomes 3).
\<close>

theorem rank_alternation_fidelity_counterexample:
  "fgt (ent (of_rows [[1,1],[1,1]]) 0 0) (Fin 0) \<and>
   fst (rank_alternation lra_keep [of_rows [[1,1],[1,1]]] 0 1 1 None) = Inr (3, []) \<and>
   ent (snd (rank_alternation lra_keep [of_rows [[1,1],[1,1]]] 0 1 1 None) ! 3) 0 0
     \<noteq> ent (of_rows [[1,1],[1,1]]) 0 0 \<and>
   fgt (ent (of_rows [[0,4],[2,0]]) 0 1) (Fin 0) \<and>
   fst (rank_alternation lra_keep [of_rows [[0,4],[2,0]]] 0 1 1 None) = Inr (3, []) \<and>
   ent (snd (rank_alternation lra_keep [of_rows [[0,4],[2,0]]] 0 1 1 None) ! 3) 0 1
     \<noteq> ent (of_rows [[0,4],[2,0]]) 0 1"
  unfolding run_diagonal run_asymmetric fst_conv snd_conv
  by (simp add: of_rows_def ent_def fgt_def)

subsection \<open>The kernel transform\<close>

lemma fmul_one [simp]: "fmul x (Fin 1) = x" "fmul (Fin 1) x = x"
  by (cases x; simp)+

lemma fadd_zero [simp]: "fadd (Fin 0) x = x"
  by (cases x) simp_all

lemma fsum_single [simp]: "fsum [x] = x"
  by (simp add: fsum_def)

lemma kappa_square:
  assumes "nrows G = n" "ncols G = n"
  shows "kappa G = Inr (mk n n (kernel G))"
proof -
  have d: "np_diag G = map (\<lambda>i. ent G i i) [0..<n]"
    using assms by (simp add: np_diag_def)
  have a: "np_add (np_outer (np_diag G) (replicate n (Fin 1)))
                  (np_outer (replicate n (Fin 1)) (np_diag G))
           = Inr (mk n n (\<lambda>i j. fadd (ent G i i) (ent G j j)))"
    unfolding d
    by (auto simp: np_add_def np_binop_def bdim_def bget_def np_outer_def intro!: mk_cong)
  have s: "np_sub (mk n n (\<lambda>i j. fadd (ent G i i) (ent G j j))) (scale (Fin 2) G)
           = Inr (mk n n (kernel G))"
    using assms
    by (auto simp: np_sub_def np_binop_def bdim_def bget_def scale_def kernel_def intro!: mk_cong)
  show ?thesis
    using assms by (simp add: kappa_def Let_def a s)
qed

lemma cvx_diag_square:
  assumes "wf_matrix G" "nrows G = n" "ncols G = n"
  shows "cvx_diag G = Inr (mk n 1 (\<lambda>i j. ent G i i))"
proof (cases "n = 1")
  case False
  then show ?thesis using assms by (simp add: cvx_diag_def)
next
  case True
  from assms True obtain x where r: "rows G = [[x]]"
    by (cases G) (auto simp: wf_matrix_def length_Suc_conv)
  then show ?thesis
    using assms True by (auto simp: cvx_diag_def ent_def Let_def intro!: mk_cong)
qed

lemma cvx_mul_col_ones:
  "cvx_mul (mk n (Suc 0) (\<lambda>i j. d i)) (np_T (mk n (Suc 0) (\<lambda>i j. Fin 1)))
     = Inr (mk n n (\<lambda>i j. d i))"
  by (auto simp: cvx_mul_def is_scalar_def scale_def np_dot_def np_T_def intro!: mk_cong)

lemma cvx_mul_ones_row:
  "cvx_mul (mk n (Suc 0) (\<lambda>i j. Fin 1)) (np_T (mk n (Suc 0) (\<lambda>i j. d i)))
     = Inr (mk n n (\<lambda>i j. d j))"
  by (auto simp: cvx_mul_def is_scalar_def scale_def np_dot_def np_T_def intro!: mk_cong)

text \<open>
  C4. For an expression \<open>gram\<close> whose value is the well-formed \<open>n\<close> by \<open>n\<close> array \<open>G\<close>
  (symmetric or not), the value of the symbolic transform \<open>kappa_cvx gram n\<close> is the result
  of the numeric transform \<open>kappa G\<close>, the array whose entry \<open>(i, j)\<close> is
  \<open>G[i,i] + G[j,j] - 2 * G[i,j]\<close>.
\<close>

theorem kappa_cvx_agrees_with_kappa:
  assumes v: "expr_value Hv gram = Inr G" and wf: "wf_matrix G"
    and sq: "nrows G = n" "ncols G = n"
  shows "expr_value Hv (kappa_cvx gram n) = kappa G \<and>
         kappa G = Inr (mk n n (\<lambda>i j. fsub (fadd (ent G i i) (ent G j j))
                                            (fmul (Fin 2) (ent G i j))))"
proof -
  have k: "kappa G = Inr (mk n n (kernel G))" using sq by (rule kappa_square)
  have a: "cvx_binop fadd (mk n n (\<lambda>i j. ent G i i)) (mk n n (\<lambda>i j. ent G j j))
           = Inr (mk n n (\<lambda>i j. fadd (ent G i i) (ent G j j)))"
    by (auto simp: cvx_binop_def same_shape_def np_binop_def bdim_def bget_def intro!: mk_cong)
  have s: "cvx_binop fsub (mk n n (\<lambda>i j. fadd (ent G i i) (ent G j j))) (scale (Fin 2) G)
           = Inr (mk n n (kernel G))"
    using sq
    by (auto simp: cvx_binop_def same_shape_def np_binop_def bdim_def bget_def scale_def
        kernel_def intro!: mk_cong)
  have "expr_value Hv (kappa_cvx gram n) = Inr (mk n n (kernel G))"
    by (simp add: kappa_cvx_def Let_def v lift2_def cvx_diag_square[OF wf sq]
        cvx_mul_col_ones cvx_mul_ones_row a s)
  with k show ?thesis by (simp add: kernel_def[abs_def])
qed

theorem kappa_cvx_agrees_with_kappa_witness:
  "expr_value (of_rows [[1]]) (kappa_cvx (Const (of_rows [[2,1],[1,3]])) 2)
     = kappa (of_rows [[2,1],[1,3]]) \<and>
   kappa (of_rows [[2,1],[1,3]]) = Inr (of_rows [[0,3],[3,0]])"
proof -
  let ?G = "of_rows [[2,1],[1,3]]"
  have v: "expr_value (of_rows [[1]]) (Const ?G) = Inr ?G" by simp
  have wf: "wf_matrix ?G" by (simp add: wf_matrix_def of_rows_def)
  have sq: "nrows ?G = 2" "ncols ?G = 2" by (simp_all add: of_rows_def)
  have "mk 2 2 (\<lambda>i j. fsub (fadd (ent ?G i i) (ent ?G j j)) (fmul (Fin 2) (ent ?G i j)))
        = of_rows [[0,3],[3,0]]"
    by (simp add: mk_def of_rows_def ent_def numeral_2_eq_2)
  with kappa_cvx_agrees_with_kappa[OF v wf sq] show ?thesis by simp
qed

subsection \<open>optspace\<close>

lemma optspace_Inr:
  assumes r: "optspace opt_space h m rank niter tol = (Inr c, h')"
  shows "\<exists>X S Y P. opt_space (h ! m) rank niter tol = Inr (X, S, Y) \<and>
           reconstruct X S Y = Inr P \<and> nrows (h ! m) \<le> nrows P \<and> nrows (h ! m) \<le> ncols P \<and>
           c = length h \<and>
           h' = h @ [mk (nrows P) (ncols P)
                       (\<lambda>i j. if i = j \<and> i < nrows (h ! m) then Fin 0 else ent P i j)]"
  using r
  by (auto simp: optspace_def Let_def alloc_def zero_diag_def
      split: sum.splits prod.splits if_splits cong del: if_weak_cong)

lemma optspace_frame:
  "optspace opt_space h m rank niter tol = (r, h') \<Longrightarrow> extends h h'"
  by (auto simp: optspace_def Let_def alloc_def extends_def nth_append
      split: sum.splits prod.splits if_splits)

lemmas opt_defs = optspace_def opt_space_const_def reconstruct_def np_dot_def np_T_def zero_diag_def
  alloc_def Let_def of_rows_def mk_def ent_def fsum_def numeral_2_eq_2

lemma run_optspace:
  "optspace (opt_space_const (of_rows [[1],[2]]) (of_rows [[1]]) (of_rows [[1],[2]]))
     [of_rows [[0,1],[1,0]]] 0 1 500 (Fin (1/1000000))
   = (Inr 1, [of_rows [[0,1],[1,0]], of_rows [[0,2],[2,0]]])"
  by (simp add: opt_defs)

lemma run_optspace_asymmetric:
  "optspace (opt_space_const (of_rows [[1],[0]]) (of_rows [[1]]) (of_rows [[0],[1]]))
     [of_rows [[0,1],[1,0]]] 0 1 500 (Fin (1/1000000))
   = (Inr 1, [of_rows [[0,1],[1,0]], of_rows [[0,1],[0,0]]])"
  by (simp add: opt_defs)

text \<open>
  C8, as amended. \<open>optspace\<close> does not symmetrize: the matrix it returns is
  \<open>X.dot(S.dot(Y.T))\<close> with the entries \<open>(i, i)\<close>, \<open>i\<close> below the number of rows of the input,
  set to zero, and every other entry as the product has it.
\<close>

theorem optspace_only_zeroes_diagonal:
  assumes "optspace opt_space h m rank niter tol = (Inr c, h')"
  shows "\<exists>X S Y P. opt_space (h ! m) rank niter tol = Inr (X, S, Y) \<and> reconstruct X S Y = Inr P \<and>
           nrows (h' ! c) = nrows P \<and> ncols (h' ! c) = ncols P \<and>
           (\<forall>i<nrows P. \<forall>j<ncols P.
              ent (h' ! c) i j = (if i = j \<and> i < nrows (h ! m) then Fin 0 else ent P i j))"
proof -
  from optspace_Inr[OF assms] obtain X S Y P where
    a: "opt_space (h ! m) rank niter tol = Inr (X, S, Y)" "reconstruct X S Y = Inr P"
    and c: "c = length h"
    and h': "h' = h @ [mk (nrows P) (ncols P)
                       (\<lambda>i j. if i = j \<and> i < nrows (h ! m) then Fin 0 else ent P i j)]"
    by blast
  from c h' have "h' ! c = mk (nrows P) (ncols P)
                       (\<lambda>i j. if i = j \<and> i < nrows (h ! m) then Fin 0 else ent P i j)"
    by simp
  with a show ?thesis by auto
qed

theorem optspace_only_zeroes_diagonal_witness:
  "\<exists>P. reconstruct (of_rows [[1],[0]]) (of_rows [[1]]) (of_rows [[0],[1]]) = Inr P \<and>
      ent ([of_rows [[0,1],[1,0]], of_rows [[0,1],[0,0]]] ! 1) 0 1 = ent P 0 1 \<and>
      ent ([of_rows [[0,1],[1,0]], of_rows [[0,1],[0,0]]] ! 1) 1 0 = ent P 1 0 \<and>
      ent ([of_rows [[0,1],[1,0]], of_rows [[0,1],[0,0]]] ! 1) 0 0 = Fin 0"
proof -
  let ?h' = "[of_rows [[0,1],[1,0]], of_rows [[0,1],[0,0]]]"
  from optspace_only_zeroes_diagonal[OF run_optspace_asymmetric] obtain X S Y P where
    f: "opt_space_const (of_rows [[1],[0]]) (of_rows [[1]]) (of_rows [[0],[1]])
          ([of_rows [[0,1],[1,0]]] ! 0) 1 500 (Fin (1/1000000)) = Inr (X, S, Y)"
    and r: "reconstruct X S Y = Inr P"
    and shp: "nrows (?h' ! 1) = nrows P" "ncols (?h' ! 1) = ncols P"
    and e: "\<forall>i<nrows P. \<forall>j<ncols P.
         ent (?h' ! 1) i j
           = (if i = j \<and> i < nrows ([of_rows [[0,1],[1,0]]] ! 0) then Fin 0 else ent P i j)"
    by blast
  from f have "X = of_rows [[1],[0]]" "S = of_rows [[1]]" "Y = of_rows [[0],[1]]"
    by (simp_all add: opt_space_const_def)
  with r have r': "reconstruct (of_rows [[1],[0]]) (of_rows [[1]]) (of_rows [[0],[1]]) = Inr P"
    by simp
  from shp have P: "nrows P = 2" "ncols P = 2" by (simp_all add: of_rows_def)
  have N: "nrows ([of_rows [[0,1],[1,0]]] ! 0) = 2" by (simp add: of_rows_def)
  from e P N have "ent (?h' ! 1) 0 1 = ent P 0 1" "ent (?h' ! 1) 1 0 = ent P 1 0"
    "ent (?h' ! 1) 0 0 = Fin 0"
    by simp_all
  with r' show ?thesis by blast
qed

text \<open>
  C8 as stated fails: with factors whose product is \<open>[[0, 1], [0, 0]]\<close> the returned
  matrix differs from its transpose.
\<close>

theorem optspace_symmetry_counterexample:
  "fst (optspace (opt_space_const (of_rows [[1],[0]]) (of_rows [[1]]) (of_rows [[0],[1]]))
          [of_rows [[0,1],[1,0]]] 0 1 500 (Fin (1/1000000))) = Inr 1 \<and>
   np_T (snd (optspace (opt_space_const (of_rows [[1],[0]]) (of_rows [[1]]) (of_rows [[0],[1]]))
          [of_rows [[0,1],[1,0]]] 0 1 500 (Fin (1/1000000))) ! 1)
     \<noteq> snd (optspace (opt_space_const (of_rows [[1],[0]]) (of_rows [[1]]) (of_rows [[0],[1]]))
          [of_rows [[0,1],[1,0]]] 0 1 500 (Fin (1/1000000))) ! 1"
  unfolding run_optspace_asymmetric fst_conv snd_conv
  by (simp add: np_T_def of_rows_def mk_def ent_def numeral_2_eq_2)

subsection \<open>semidefinite\_relaxation\<close>

lemma sdr_weights_frame:
  "sdr_weights h m W = (r, h1) \<Longrightarrow>
   length h \<le> length h1 \<and> (\<forall>a<length h. W \<noteq> Some a \<longrightarrow> h1 ! a = h ! a)"
  by (auto simp: sdr_weights_def alloc_def nth_append split: option.splits sum.splits)

lemma sdr_weights_given:
  "sdr_weights h m (Some w) =
     (if same_shape (h ! w) (h ! m)
      then (Inr w, h[w := mk (nrows (h ! w)) (ncols (h ! w))
                      (\<lambda>i j. if feq (ent (h ! m) i j) (Fin 0) then Fin 0 else ent (h ! w) i j)])
      else (Inl IndexError, h))"
  by (simp add: sdr_weights_def zero_where_zero_def)

lemma zero_where_zero_self:
  "wf_matrix M \<Longrightarrow> zero_where_zero M M = Inr M"
proof -
  assume wf: "wf_matrix M"
  have "(if feq (ent M i j) (Fin 0) then Fin 0 else ent M i j) = ent M i j" for i j
    by (cases "ent M i j") auto
  then show ?thesis
    using wf by (simp add: zero_where_zero_def same_shape_def mk_ent)
qed

lemma sdr_weights_input:
  assumes "sdr_weights h m W = (r, h1)" "m < length h" "wf_matrix (h ! m)"
  shows "h1 ! m = h ! m"
proof (cases "W = Some m")
  case True
  with assms show ?thesis
    by (auto simp: sdr_weights_def zero_where_zero_self)
next
  case False
  with sdr_weights_frame[OF assms(1)] assms(2) show ?thesis by simp
qed

lemma sdr_frame:
  assumes "semidefinite_relaxation solve h m lamda W kwargs = (r, h')"
  shows "\<exists>r1 h1. sdr_weights h m W = (r1, h1) \<and> extends h1 h'"
  using assms
  by (auto simp: semidefinite_relaxation_def Let_def alloc_def
      split: sum.splits prod.splits option.splits if_splits)

lemma fsum_finite: "\<forall>x\<in>set xs. x \<noteq> NaN \<Longrightarrow> fsum xs \<noteq> NaN"
proof -
  have "\<forall>x\<in>set xs. x \<noteq> NaN \<Longrightarrow> a \<noteq> NaN \<Longrightarrow> foldl fadd a xs \<noteq> NaN" for a
  proof (induction xs arbitrary: a)
    case Nil then show ?case by simp
  next
    case (Cons x xs)
    then have "fadd a x \<noteq> NaN" by (cases a; cases x) auto
    with Cons show ?case by simp
  qed
  then show "\<forall>x\<in>set xs. x \<noteq> NaN \<Longrightarrow> fsum xs \<noteq> NaN" by (simp add: fsum_def)
qed

lemma fmul_finite: "x \<noteq> NaN \<Longrightarrow> y \<noteq> NaN \<Longrightarrow> fmul x y \<noteq> NaN"
  by (cases x; cases y) auto

lemma finite_ent:
  "finite_matrix A \<Longrightarrow> wf_matrix A \<Longrightarrow> i < nrows A \<Longrightarrow> j < ncols A \<Longrightarrow> ent A i j \<noteq> NaN"
  by (auto simp: finite_matrix_def wf_matrix_def ent_def list_all_length)

lemma np_dot_finite:
  assumes "np_dot A B = Inr C"
    and A: "\<And>i k. i < nrows A \<Longrightarrow> k < ncols A \<Longrightarrow> ent A i k \<noteq> NaN"
    and B: "\<And>k j. k < nrows B \<Longrightarrow> j < ncols B \<Longrightarrow> ent B k j \<noteq> NaN"
  shows "nrows C = nrows A \<and> ncols C = ncols B \<and>
         (\<forall>i<nrows A. \<forall>j<ncols B. ent C i j \<noteq> NaN)"
proof -
  from assms(1) have eq: "ncols A = nrows B"
    and C: "C = mk (nrows A) (ncols B)
                  (\<lambda>i j. fsum (map (\<lambda>k. fmul (ent A i k) (ent B k j)) [0..<ncols A]))"
    by (auto simp: np_dot_def split: if_splits)
  have "fsum (map (\<lambda>k. fmul (ent A i k) (ent B k j)) [0..<ncols A]) \<noteq> NaN"
    if "i < nrows A" "j < ncols B" for i j
  proof (rule fsum_finite, rule ballI)
    fix x assume "x \<in> set (map (\<lambda>k. fmul (ent A i k) (ent B k j)) [0..<ncols A])"
    then obtain k where k: "k < ncols A" and x: "x = fmul (ent A i k) (ent B k j)" by auto
    from k eq that show "x \<noteq> NaN" unfolding x by (intro fmul_finite A B) simp_all
  qed
  then show ?thesis
    unfolding C by simp
qed

lemma kernel_diag: "x \<noteq> NaN \<Longrightarrow> fsub (fadd x x) (fmul (Fin 2) x) = Fin 0"
  by (cases x) auto

lemma centering_finite: "i < n \<Longrightarrow> j < n - 1 \<Longrightarrow> ent (centering n) i j \<noteq> NaN"
  by (simp add: centering_def)

lemma sdr_value:
  assumes r: "semidefinite_relaxation solve h m lamda W kwargs = (Inr c, h')"
    and w: "sdr_weights h m W = (Inr w, h1)"
    and ob: "sdr_objective (case kwargs ''method'' of None \<Rightarrow> ''maximize'' | Some x \<Rightarrow> x)
               lamda (h1 ! w) (h1 ! m) = Some obj"
    and s: "solve obj ([''solver'' \<mapsto> ''CVXOPT''] ++ (kwargs(''method'' := None))) = Inr (Some Hv)"
  shows "\<exists>VH Gbest. np_dot (centering (nrows (h1 ! m))) Hv = Inr VH \<and>
           np_dot VH (np_T (centering (nrows (h1 ! m)))) = Inr Gbest \<and>
           c = length h1 \<and> h' = h1 @ [mk (nrows (h1 ! m)) (nrows (h1 ! m)) (kernel Gbest)]"
proof -
  let ?n = "nrows (h1 ! m)"
  from r w ob s obtain VH Gbest K where
    1: "np_dot (centering ?n) Hv = Inr VH" and 2: "np_dot VH (np_T (centering ?n)) = Inr Gbest"
    and 3: "kappa Gbest = Inr K" and 4: "c = length h1" "h' = h1 @ [K]"
    by (auto simp: semidefinite_relaxation_def Let_def alloc_def
        split: sum.splits prod.splits option.splits if_splits)
  from 1 2 have "nrows Gbest = ?n" "ncols Gbest = ?n"
    by (auto simp: np_dot_def centering_def split: if_splits)
  from kappa_square[OF this] 3 have "K = mk ?n ?n (kernel Gbest)" by simp
  with 1 2 4 show ?thesis by simp
qed

lemma sdr_diag_zero:
  assumes r: "semidefinite_relaxation solve h m lamda W kwargs = (Inr c, h')"
    and w: "sdr_weights h m W = (Inr w, h1)"
    and ob: "sdr_objective (case kwargs ''method'' of None \<Rightarrow> ''maximize'' | Some x \<Rightarrow> x)
               lamda (h1 ! w) (h1 ! m) = Some obj"
    and s: "solve obj ([''solver'' \<mapsto> ''CVXOPT''] ++ (kwargs(''method'' := None))) = Inr (Some Hv)"
    and fin: "finite_matrix Hv" "wf_matrix Hv"
    and i: "i < nrows (h1 ! m)"
  shows "nrows (h' ! c) = nrows (h1 ! m) \<and> ncols (h' ! c) = nrows (h1 ! m) \<and>
         ent (h' ! c) i i = Fin 0"
proof -
  let ?n = "nrows (h1 ! m)"
  let ?V = "centering ?n"
  from sdr_value[OF r w ob s] obtain VH Gbest where
    1: "np_dot ?V Hv = Inr VH" and 2: "np_dot VH (np_T ?V) = Inr Gbest"
    and 3: "c = length h1" "h' = h1 @ [mk ?n ?n (kernel Gbest)]" by blast
  have V: "nrows ?V = ?n" "ncols ?V = ?n - 1" by (simp_all add: centering_def)
  have a: "nrows VH = ?n \<and> ncols VH = ncols Hv \<and> (\<forall>i<?n. \<forall>j<ncols Hv. ent VH i j \<noteq> NaN)"
    using np_dot_finite[OF 1] V fin by (simp add: centering_finite finite_ent)
  have b: "nrows Gbest = nrows VH \<and> ncols Gbest = ncols (np_T ?V) \<and>
           (\<forall>i<nrows VH. \<forall>j<ncols (np_T ?V). ent Gbest i j \<noteq> NaN)"
  proof (rule np_dot_finite[OF 2])
    fix i k assume "i < nrows VH" "k < ncols VH"
    with a show "ent VH i k \<noteq> NaN" by simp
  next
    fix k j assume "k < nrows (np_T ?V)" "j < ncols (np_T ?V)"
    then show "ent (np_T ?V) k j \<noteq> NaN"
      using V by (simp add: np_T_def centering_finite)
  qed
  from a b V i have "ent Gbest i i \<noteq> NaN" by simp
  then have "kernel Gbest i i = Fin 0" by (simp add: kernel_def kernel_diag)
  with 3 i show ?thesis by (simp add: nth_append)
qed

lemma sdr_fallback:
  assumes m: "m < length h" and wf: "wf_matrix (h ! m)"
    and w: "sdr_weights h m W = (Inr w, h1)" and n: "0 < nrows (h ! m)"
    and ob: "sdr_objective (case kwargs ''method'' of None \<Rightarrow> ''maximize'' | Some x \<Rightarrow> x)
               lamda (h1 ! w) (h1 ! m) = Some obj"
    and s: "solve obj ([''solver'' \<mapsto> ''CVXOPT''] ++ (kwargs(''method'' := None))) = Inr None"
  shows "semidefinite_relaxation solve h m lamda W kwargs = (Inr m, h1) \<and> h1 ! m = h ! m"
proof -
  have eq: "h1 ! m = h ! m" using w m wf by (rule sdr_weights_input)
  with n have "nrows (h1 ! m) \<noteq> 0" by simp
  with w ob s eq show ?thesis
    by (simp add: semidefinite_relaxation_def Let_def)
qed

lemma sdr_returns:
  assumes w: "sdr_weights h m W = (Inr w, h1)" and n: "0 < nrows (h1 ! m)"
    and ob: "sdr_objective (case kwargs ''method'' of None \<Rightarrow> ''maximize'' | Some x \<Rightarrow> x)
               lamda (h1 ! w) (h1 ! m) = Some obj"
    and s: "solve obj ([''solver'' \<mapsto> ''CVXOPT''] ++ (kwargs(''method'' := None))) = Inr (Some Hv)"
    and shape: "nrows Hv = nrows (h1 ! m) - 1" "ncols Hv = nrows (h1 ! m) - 1"
  shows "\<exists>K. semidefinite_relaxation solve h m lamda W kwargs = (Inr (length h1), h1 @ [K])"
proof -
  let ?n = "nrows (h1 ! m)"
  let ?V = "centering ?n"
  obtain VH where 1: "np_dot ?V Hv = Inr VH" and VH: "nrows VH = ?n" "ncols VH = ?n - 1"
    using shape by (auto simp: np_dot_def centering_def)
  obtain Gbest where 2: "np_dot VH (np_T ?V) = Inr Gbest" and G: "nrows Gbest = ?n" "ncols Gbest = ?n"
    using VH by (auto simp: np_dot_def centering_def)
  from kappa_square[OF G] have 3: "kappa Gbest = Inr (mk ?n ?n (kernel Gbest))" .
  from n w ob s 1 2 3 show ?thesis
    by (simp add: semidefinite_relaxation_def Let_def alloc_def)
qed

lemma sdr_objective_maximize:
  "sdr_objective ''maximize'' lamda W M = Some (the (sdr_objective ''maximize'' lamda W M))"
  by (simp add: sdr_objective_def Let_def)

lemma sdr_objective_other:
  "method \<noteq> ''maximize'' \<Longrightarrow> method \<noteq> ''minimize'' \<Longrightarrow>
   sdr_objective method lamda W M = None"
  by (simp add: sdr_objective_def Let_def)

lemma sdr_unknown_method:
  assumes "kwargs ''method'' = Some meth" "meth \<noteq> ''maximize''" "meth \<noteq> ''minimize''"
  shows "semidefinite_relaxation solve h m lamda W kwargs =
           (case sdr_weights h m W of
              (Inl e, h1) \<Rightarrow> (Inl e, h1)
            | (Inr w, h1) \<Rightarrow>
                if nrows (h1 ! m) = 0 then (Inl ValueError, h1) else (Inl UnboundLocalError, h1))"
  using assms
  by (simp add: semidefinite_relaxation_def Let_def sdr_objective_other
      split: prod.splits sum.splits)

lemma run_weights_none:
  "sdr_weights [of_rows [[0,1],[1,0]]] 0 None
   = (Inr 1, [of_rows [[0,1],[1,0]], of_rows [[0,1],[1,0]]])"
  by (simp add: sdr_weights_def alloc_def mask_pos_def of_rows_def mk_def ent_def fgt_def
      numeral_2_eq_2)

lemma run_weights_none_ones:
  "sdr_weights [of_rows [[1,1],[1,1]]] 0 None
   = (Inr 1, [of_rows [[1,1],[1,1]], of_rows [[1,1],[1,1]]])"
  by (simp add: sdr_weights_def alloc_def mask_pos_def of_rows_def mk_def ent_def fgt_def
      numeral_2_eq_2)

lemma run_fallback_ones:
  "semidefinite_relaxation solve_none [of_rows [[1,1],[1,1]]] 0 (Fin 1) None Map.empty
   = (Inr 0, [of_rows [[1,1],[1,1]], of_rows [[1,1],[1,1]]])"
proof -
  let ?M = "of_rows [[1,1],[1,1]]"
  have m: "0 < length [?M]" by simp
  have wf: "wf_matrix ([?M] ! 0)" by (simp add: wf_matrix_def of_rows_def)
  have n: "0 < nrows ([?M] ! 0)" by (simp add: of_rows_def)
  have ob: "sdr_objective (case Map.empty ''method'' of None \<Rightarrow> ''maximize'' | Some x \<Rightarrow> x)
              (Fin 1) ([?M, ?M] ! 1) ([?M, ?M] ! 0)
            = Some (the (sdr_objective ''maximize'' (Fin 1) ?M ?M))"
    using sdr_objective_maximize[of "Fin 1" ?M ?M] by simp
  have s: "solve_none (the (sdr_objective ''maximize'' (Fin 1) ?M ?M))
             ([''solver'' \<mapsto> ''CVXOPT''] ++ (Map.empty(''method'' := None))) = Inr None"
    by (simp add: solve_none_def)
  from sdr_fallback[where kwargs = Map.empty and solve = solve_none and lamda = "Fin 1"
      and obj = "the (sdr_objective ''maximize'' (Fin 1) ?M ?M)",
      OF m wf run_weights_none_ones n ob s]
  show ?thesis by simp
qed

lemma run_fallback_weights:
  "semidefinite_relaxation solve_none [of_rows [[0,1],[1,0]], of_rows [[1,1],[1,1]]] 0 (Fin 1)
     (Some 1) Map.empty
   = (Inr 0, [of_rows [[0,1],[1,0]], of_rows [[0,1],[1,0]]])"
proof -
  let ?M = "of_rows [[0,1],[1,0]]"
  let ?W = "of_rows [[1,1],[1,1]]"
  have m: "0 < length [?M, ?W]" by simp
  have wf: "wf_matrix ([?M, ?W] ! 0)" by (simp add: wf_matrix_def of_rows_def)
  have n: "0 < nrows ([?M, ?W] ! 0)" by (simp add: of_rows_def)
  have w: "sdr_weights [?M, ?W] 0 (Some 1) = (Inr 1, [?M, ?M])"
    by (simp add: sdr_weights_given same_shape_def of_rows_def mk_def ent_def numeral_2_eq_2)
  have ob: "sdr_objective (case Map.empty ''method'' of None \<Rightarrow> ''maximize'' | Some x \<Rightarrow> x)
              (Fin 1) ([?M, ?M] ! 1) ([?M, ?M] ! 0)
            = Some (the (sdr_objective ''maximize'' (Fin 1) ?M ?M))"
    using sdr_objective_maximize[of "Fin 1" ?M ?M] by simp
  have s: "solve_none (the (sdr_objective ''maximize'' (Fin 1) ?M ?M))
             ([''solver'' \<mapsto> ''CVXOPT''] ++ (Map.empty(''method'' := None))) = Inr None"
    by (simp add: solve_none_def)
  from sdr_fallback[where kwargs = Map.empty and solve = solve_none and lamda = "Fin 1"
      and obj = "the (sdr_objective ''maximize'' (Fin 1) ?M ?M)", OF m wf w n ob s]
  show ?thesis by simp
qed

text \<open>
  C3. Let the input be a well-formed array with at least two rows, let the weights step
  pass and the objective be assigned. If the solver then leaves \<open>H\<close> without a value, the
  call returns the address of the input array itself, and that array holds what it held
  before the call.
\<close>

theorem fallback_returns_input:
  assumes m: "m < length h" and wf: "wf_matrix (h ! m)"
    and w: "sdr_weights h m W = (Inr w, h1)" and n: "1 < nrows (h ! m)"
    and ob: "sdr_objective (case kwargs ''method'' of None \<Rightarrow> ''maximize'' | Some x \<Rightarrow> x)
               lamda (h1 ! w) (h1 ! m) = Some obj"
    and s: "solve obj ([''solver'' \<mapsto> ''CVXOPT''] ++ (kwargs(''method'' := None))) = Inr None"
  shows "semidefinite_relaxation solve h m lamda W kwargs = (Inr m, h1) \<and> h1 ! m = h ! m"
proof -
  from n have n0: "0 < nrows (h ! m)" by simp
  show ?thesis
    by (rule sdr_fallback[where kwargs = kwargs and solve = solve, OF m wf w n0 ob s])
qed

theorem fallback_returns_input_witness:
  "semidefinite_relaxation solve_none [of_rows [[0,1],[1,0]]] 0 (Fin 1) None Map.empty
     = (Inr 0, [of_rows [[0,1],[1,0]], of_rows [[0,1],[1,0]]]) \<and>
   [of_rows [[0,1],[1,0]], of_rows [[0,1],[1,0]]] ! 0 = [of_rows [[0,1],[1,0]]] ! 0"
proof -
  let ?M = "of_rows [[0,1],[1,0]]"
  have m: "0 < length [?M]" by simp
  have wf: "wf_matrix ([?M] ! 0)" by (simp add: wf_matrix_def of_rows_def)
  have n: "1 < nrows ([?M] ! 0)" by (simp add: of_rows_def)
  have ob: "sdr_objective (case Map.empty ''method'' of None \<Rightarrow> ''maximize'' | Some x \<Rightarrow> x)
              (Fin 1) ([?M, ?M] ! 1) ([?M, ?M] ! 0)
            = Some (the (sdr_objective ''maximize'' (Fin 1) ?M ?M))"
    using sdr_objective_maximize[of "Fin 1" ?M ?M] by simp
  have s: "solve_none (the (sdr_objective ''maximize'' (Fin 1) ?M ?M))
             ([''solver'' \<mapsto> ''CVXOPT''] ++ (Map.empty(''method'' := None))) = Inr None"
    by (simp add: solve_none_def)
  from fallback_returns_input[where kwargs = Map.empty and solve = solve_none
      and lamda = "Fin 1" and obj = "the (sdr_objective ''maximize'' (Fin 1) ?M ?M)",
      OF m wf run_weights_none n ob s]
  show ?thesis .
qed

text \<open>
  C10. When the keyword \<open>method\<close> is given a value other than \<open>maximize\<close> and
  \<open>minimize\<close>, the call never returns a matrix; its outcome does not depend on the solver
  (which is not invoked); and once the weights step has passed on an input with at least
  two rows, the outcome is UnboundLocalError.
\<close>

theorem unknown_method_fails:
  assumes k: "kwargs ''method'' = Some meth" and ne: "meth \<noteq> ''maximize''" "meth \<noteq> ''minimize''"
  shows "(\<exists>e. fst (semidefinite_relaxation solve h m lamda W kwargs) = Inl e) \<and>
         semidefinite_relaxation solve h m lamda W kwargs
           = semidefinite_relaxation solve' h m lamda W kwargs \<and>
         (sdr_weights h m W = (Inr w, h1) \<and> 1 < nrows (h1 ! m) \<longrightarrow>
            semidefinite_relaxation solve h m lamda W kwargs = (Inl UnboundLocalError, h1))"
proof -
  note u = sdr_unknown_method[where kwargs = kwargs, OF k ne]
  show ?thesis
  proof (intro conjI impI)
    show "\<exists>e. fst (semidefinite_relaxation solve h m lamda W kwargs) = Inl e"
      unfolding u by (auto split: prod.splits sum.splits)
  next
    show "semidefinite_relaxation solve h m lamda W kwargs
            = semidefinite_relaxation solve' h m lamda W kwargs"
      unfolding u ..
  next
    assume "sdr_weights h m W = (Inr w, h1) \<and> 1 < nrows (h1 ! m)"
    then show "semidefinite_relaxation solve h m lamda W kwargs = (Inl UnboundLocalError, h1)"
      unfolding u by simp
  qed
qed

theorem unknown_method_fails_witness:
  "(\<exists>e. fst (semidefinite_relaxation (solve_value (of_rows [[1]])) [of_rows [[0,1],[1,0]]] 0
              (Fin 1) None [''method'' \<mapsto> ''median'']) = Inl e) \<and>
   semidefinite_relaxation (solve_value (of_rows [[1]])) [of_rows [[0,1],[1,0]]] 0 (Fin 1) None
       [''method'' \<mapsto> ''median'']
     = semidefinite_relaxation solve_none [of_rows [[0,1],[1,0]]] 0 (Fin 1) None
         [''method'' \<mapsto> ''median''] \<and>
   semidefinite_relaxation (solve_value (of_rows [[1]])) [of_rows [[0,1],[1,0]]] 0 (Fin 1) None
       [''method'' \<mapsto> ''median'']
     = (Inl UnboundLocalError, [of_rows [[0,1],[1,0]], of_rows [[0,1],[1,0]]])"
proof -
  let ?M = "of_rows [[0,1],[1,0]]"
  have k: "[''method'' \<mapsto> ''median''] ''method'' = Some ''median''" by simp
  have ne: "''median'' \<noteq> ''maximize''" "''median'' \<noteq> ''minimize''" by simp_all
  have n: "1 < nrows ([?M, ?M] ! 0)" by (simp add: of_rows_def)
  from unknown_method_fails[where kwargs = "[''method'' \<mapsto> ''median'']"
      and solve = "solve_value (of_rows [[1]])"
      and solve' = solve_none and h = "[?M]" and m = 0 and lamda = "Fin 1" and W = None
      and w = 1 and ?h1.0 = "[?M, ?M]", OF k ne] run_weights_none n
  show ?thesis by blast
qed

subsection \<open>The diagonal\<close>

text \<open>
  C2, as amended. (a) A matrix returned by \<open>optspace\<close> has zero at \<open>(i, i)\<close> for every \<open>i\<close>
  below the number of rows of the input. (b) On a square input and with \<open>niter\<close> at least
  1, the matrix returned by \<open>rank_alternation\<close> has the shape of the input and a zero
  diagonal. (c) When the solver gives \<open>H\<close> a well-formed value of shape
  \<open>(n - 1, n - 1)\<close> without NaN, \<open>n > 1\<close> the number of rows of the input,
  \<open>semidefinite_relaxation\<close> returns an \<open>n\<close> by \<open>n\<close> matrix with a zero diagonal.
\<close>

theorem completers_zero_diagonal:
  "(optspace opt_space h m rank niter tol = (Inr c1, h1') \<longrightarrow>
      (\<forall>i<nrows (h ! m). ent (h1' ! c1) i i = Fin 0)) \<and>
   (rank_alternation lra h m rank niter' tr = (Inr (c2, errs), h2') \<and> m < length h \<and>
      ncols (h ! m) = nrows (h ! m) \<and> 0 < niter' \<longrightarrow>
      nrows (h2' ! c2) = nrows (h ! m) \<and> ncols (h2' ! c2) = nrows (h ! m) \<and>
      (\<forall>i<nrows (h ! m). ent (h2' ! c2) i i = Fin 0)) \<and>
   (sdr_weights h m W = (Inr w, hw) \<and> 1 < nrows (hw ! m) \<and>
      sdr_objective (case kwargs ''method'' of None \<Rightarrow> ''maximize'' | Some x \<Rightarrow> x)
        lamda (hw ! w) (hw ! m) = Some obj \<and>
      solve obj ([''solver'' \<mapsto> ''CVXOPT''] ++ (kwargs(''method'' := None))) = Inr (Some Hv) \<and>
      wf_matrix Hv \<and> finite_matrix Hv \<and>
      nrows Hv = nrows (hw ! m) - 1 \<and> ncols Hv = nrows (hw ! m) - 1 \<longrightarrow>
      (\<exists>c3 h3'. semidefinite_relaxation solve h m lamda W kwargs = (Inr c3, h3') \<and>
         nrows (h3' ! c3) = nrows (hw ! m) \<and> ncols (h3' ! c3) = nrows (hw ! m) \<and>
         (\<forall>i<nrows (hw ! m). ent (h3' ! c3) i i = Fin 0)))"
proof (intro conjI impI)
  assume "optspace opt_space h m rank niter tol = (Inr c1, h1')"
  from optspace_Inr[OF this] show "\<forall>i<nrows (h ! m). ent (h1' ! c1) i i = Fin 0"
    by auto
next
  assume a: "rank_alternation lra h m rank niter' tr = (Inr (c2, errs), h2') \<and> m < length h \<and>
      ncols (h ! m) = nrows (h ! m) \<and> 0 < niter'"
  then obtain k where k: "niter' = Suc k" by (cases niter') auto
  from a k rank_alternation_result[of lra h m rank k tr c2 errs h2' "nrows (h ! m)"]
  obtain B where "h2' ! c2 = mk (nrows (h ! m)) (nrows (h ! m)) (\<lambda>i j. if i = j then Fin 0
             else fmul (Fin (1/2)) (fadd (clipv (known (h ! m) B i j)) (clipv (known (h ! m) B j i))))"
    by auto
  then show "nrows (h2' ! c2) = nrows (h ! m)" "ncols (h2' ! c2) = nrows (h ! m)"
    "\<forall>i<nrows (h ! m). ent (h2' ! c2) i i = Fin 0"
    by simp_all
next
  assume a: "sdr_weights h m W = (Inr w, hw) \<and> 1 < nrows (hw ! m) \<and>
      sdr_objective (case kwargs ''method'' of None \<Rightarrow> ''maximize'' | Some x \<Rightarrow> x)
        lamda (hw ! w) (hw ! m) = Some obj \<and>
      solve obj ([''solver'' \<mapsto> ''CVXOPT''] ++ (kwargs(''method'' := None))) = Inr (Some Hv) \<and>
      wf_matrix Hv \<and> finite_matrix Hv \<and>
      nrows Hv = nrows (hw ! m) - 1 \<and> ncols Hv = nrows (hw ! m) - 1"
  then have n: "0 < nrows (hw ! m)" by simp
  from a sdr_returns[of h m W w hw kwargs lamda obj solve Hv, OF _ n] obtain K where
    r: "semidefinite_relaxation solve h m lamda W kwargs = (Inr (length hw), hw @ [K])" by auto
  from a sdr_diag_zero[OF r, of w hw obj Hv]
  have "\<forall>i<nrows (hw ! m). nrows ((hw @ [K]) ! length hw) = nrows (hw ! m) \<and>
           ncols ((hw @ [K]) ! length hw) = nrows (hw ! m) \<and>
           ent ((hw @ [K]) ! length hw) i i = Fin 0"
    by blast
  with n r show "\<exists>c3 h3'. semidefinite_relaxation solve h m lamda W kwargs = (Inr c3, h3') \<and>
         nrows (h3' ! c3) = nrows (hw ! m) \<and> ncols (h3' ! c3) = nrows (hw ! m) \<and>
         (\<forall>i<nrows (hw ! m). ent (h3' ! c3) i i = Fin 0)"
    by (intro exI[of _ "length hw"] exI[of _ "hw @ [K]"]) auto
qed

theorem completers_zero_diagonal_witness:
  "ent ([of_rows [[0,1],[1,0]], of_rows [[0,2],[2,0]]] ! 1) 0 0 = Fin 0 \<and>
   ent ([of_rows [[0,1],[1,0]], of_rows [[0,2],[2,0]]] ! 1) 1 1 = Fin 0 \<and>
   ent ([of_rows [[0,1],[1,0]], of_rows [[1,1],[1,1]], of_rows [[0,1],[1,0]],
         of_rows [[0,1],[1,0]]] ! 3) 0 0 = Fin 0 \<and>
   ent ([of_rows [[0,1],[1,0]], of_rows [[1,1],[1,1]], of_rows [[0,1],[1,0]],
         of_rows [[0,1],[1,0]]] ! 3) 1 1 = Fin 0 \<and>
   (\<exists>c3 h3'. semidefinite_relaxation (solve_value (of_rows [[1]])) [of_rows [[0,1],[1,0]]] 0
                (Fin 1) None Map.empty = (Inr c3, h3') \<and>
       ent (h3' ! c3) 0 0 = Fin 0 \<and> ent (h3' ! c3) 1 1 = Fin 0)"
proof -
  let ?M = "of_rows [[0,1],[1,0]]"
  let ?Hv = "of_rows [[1]]"
  let ?obj = "the (sdr_objective ''maximize'' (Fin 1) ?M ?M)"
  have N: "nrows ([?M] ! 0) = 2" "ncols ([?M] ! 0) = 2" by (simp_all add: of_rows_def)
  have N1: "nrows ([?M, ?M] ! 0) = 2" by (simp add: of_rows_def)
  have ob: "sdr_objective (case Map.empty ''method'' of None \<Rightarrow> ''maximize'' | Some x \<Rightarrow> x)
              (Fin 1) ([?M, ?M] ! 1) ([?M, ?M] ! 0) = Some ?obj"
    using sdr_objective_maximize[of "Fin 1" ?M ?M] by simp
  have s: "solve_value ?Hv ?obj ([''solver'' \<mapsto> ''CVXOPT''] ++ (Map.empty(''method'' := None)))
             = Inr (Some ?Hv)"
    by (simp add: solve_value_def)
  have Hv: "wf_matrix ?Hv" "finite_matrix ?Hv" "nrows ?Hv = 1" "ncols ?Hv = 1"
    by (simp_all add: wf_matrix_def finite_matrix_def of_rows_def)
  note t = completers_zero_diagonal[where h = "[?M]" and m = 0 and rank = 1
      and opt_space = "opt_space_const (of_rows [[1],[2]]) (of_rows [[1]]) (of_rows [[1],[2]])"
      and niter = 500 and tol = "Fin (1/1000000)" and ?c1.0 = 1
      and ?h1' = "[?M, of_rows [[0,2],[2,0]]]"
      and lra = lra_keep and niter' = 1 and tr = None and ?c2.0 = 3 and errs = "[]"
      and ?h2' = "[?M, of_rows [[1,1],[1,1]], ?M, ?M]"
      and W = None and w = 1 and hw = "[?M, ?M]" and kwargs = Map.empty and lamda = "Fin 1"
      and obj = ?obj and solve = "solve_value ?Hv" and Hv = ?Hv]
  from t run_optspace have 1: "\<forall>i<2. ent ([?M, of_rows [[0,2],[2,0]]] ! 1) i i = Fin 0"
    unfolding N by blast
  from t run_symmetric N have 2: "\<forall>i<2. ent ([?M, of_rows [[1,1],[1,1]], ?M, ?M] ! 3) i i = Fin 0"
    by simp
  from t run_weights_none ob s Hv N1
  have 3: "\<exists>c3 h3'. semidefinite_relaxation (solve_value ?Hv) [?M] 0 (Fin 1) None Map.empty
             = (Inr c3, h3') \<and> (\<forall>i<2. ent (h3' ! c3) i i = Fin 0)"
    by auto
  have lt: "(0::nat) < 2" "(1::nat) < 2" by simp_all
  from 1 2 3 lt show ?thesis by blast
qed

text \<open>
  C2 as stated fails: without a value for \<open>H\<close>, \<open>semidefinite_relaxation\<close> returns the
  input, whose diagonal need not be zero (\<open>[[1, 1], [1, 1]]\<close>); with \<open>niter = 0\<close>,
  \<open>rank_alternation\<close> returns the copy whose zeros were replaced by the mean.
\<close>

theorem zero_diagonal_counterexample:
  "fst (semidefinite_relaxation solve_none [of_rows [[1,1],[1,1]]] 0 (Fin 1) None Map.empty)
     = Inr 0 \<and>
   ent (snd (semidefinite_relaxation solve_none [of_rows [[1,1],[1,1]]] 0 (Fin 1) None Map.empty)
          ! 0) 0 0 \<noteq> Fin 0 \<and>
   fst (rank_alternation lra_keep [of_rows [[0,1],[1,0]]] 0 1 0 None) = Inr (1, []) \<and>
   ent (snd (rank_alternation lra_keep [of_rows [[0,1],[1,0]]] 0 1 0 None) ! 1) 0 0 \<noteq> Fin 0"
  unfolding run_fallback_ones run_niter_zero fst_conv snd_conv
  by (simp add: of_rows_def ent_def)

subsection \<open>The caller's arrays\<close>

text \<open>
  C5, as amended. Whatever the outcome, \<open>optspace\<close> and \<open>rank_alternation\<close> leave every
  array of the caller as it was. \<open>semidefinite_relaxation\<close> leaves every array other than
  \<open>W\<close> as it was, also the (well-formed) input when it is passed as \<open>W\<close> too; a given \<open>W\<close>
  of the input's shape is overwritten in place: zero where the input is zero, its old entry
  elsewhere; a \<open>W\<close> of another shape is left as it was.
\<close>

theorem completers_store_effect:
  "extends h (snd (optspace opt_space h m rank niter tol)) \<and>
   extends h (snd (rank_alternation lra h m rank niter' tr)) \<and>
   length h \<le> length (snd (semidefinite_relaxation solve h m lamda W kwargs)) \<and>
   (\<forall>a<length h. W \<noteq> Some a \<longrightarrow>
      snd (semidefinite_relaxation solve h m lamda W kwargs) ! a = h ! a) \<and>
   (m < length h \<and> wf_matrix (h ! m) \<longrightarrow>
      snd (semidefinite_relaxation solve h m lamda W kwargs) ! m = h ! m) \<and>
   (\<forall>w<length h. W = Some w \<longrightarrow>
      snd (semidefinite_relaxation solve h m lamda W kwargs) ! w =
        (if same_shape (h ! w) (h ! m)
         then mk (nrows (h ! w)) (ncols (h ! w))
                (\<lambda>i j. if feq (ent (h ! m) i j) (Fin 0) then Fin 0 else ent (h ! w) i j)
         else h ! w))"
proof -
  obtain r1 h1 where o: "optspace opt_space h m rank niter tol = (r1, h1)"
    by (cases "optspace opt_space h m rank niter tol")
  obtain r2 h2 where ra: "rank_alternation lra h m rank niter' tr = (r2, h2)"
    by (cases "rank_alternation lra h m rank niter' tr")
  obtain r3 h3 where s: "semidefinite_relaxation solve h m lamda W kwargs = (r3, h3)"
    by (cases "semidefinite_relaxation solve h m lamda W kwargs")
  from sdr_frame[OF s] obtain rw hw where w: "sdr_weights h m W = (rw, hw)" and e: "extends hw h3"
    by blast
  from sdr_weights_frame[OF w] have f: "length h \<le> length hw"
    "\<forall>a<length h. W \<noteq> Some a \<longrightarrow> hw ! a = h ! a" by simp_all
  have 1: "length h \<le> length h3" using f e by (simp add: extends_def)
  have 2: "\<forall>a<length h. W \<noteq> Some a \<longrightarrow> h3 ! a = h ! a"
    using f e by (auto simp: extends_def)
  have 3: "h3 ! m = h ! m" if "m < length h" "wf_matrix (h ! m)"
    using sdr_weights_input[OF w that] e f(1) that(1) by (auto simp: extends_def)
  have 4: "h3 ! a = (if same_shape (h ! a) (h ! m)
         then mk (nrows (h ! a)) (ncols (h ! a))
                (\<lambda>i j. if feq (ent (h ! m) i j) (Fin 0) then Fin 0 else ent (h ! a) i j)
         else h ! a)" if "a < length h" "W = Some a" for a
  proof -
    from f(1) that(1) e have "h3 ! a = hw ! a" by (auto simp: extends_def)
    moreover from w that have "hw ! a = (if same_shape (h ! a) (h ! m)
         then mk (nrows (h ! a)) (ncols (h ! a))
                (\<lambda>i j. if feq (ent (h ! m) i j) (Fin 0) then Fin 0 else ent (h ! a) i j)
         else h ! a)"
      by (auto simp: sdr_weights_given split: if_splits)
    ultimately show ?thesis by simp
  qed
  from optspace_frame[OF o] rank_alternation_frame[OF ra] 1 2 3 4
  show ?thesis unfolding o ra s snd_conv by blast
qed

theorem completers_store_effect_witness:
  "snd (optspace (opt_space_const (of_rows [[1],[2]]) (of_rows [[1]]) (of_rows [[1],[2]]))
          [of_rows [[0,1],[1,0]], of_rows [[1,1],[1,1]]] 0 1 500 (Fin (1/1000000))) ! 1
     = of_rows [[1,1],[1,1]] \<and>
   snd (rank_alternation lra_keep [of_rows [[0,1],[1,0]], of_rows [[1,1],[1,1]]] 0 1 1 None) ! 0
     = of_rows [[0,1],[1,0]] \<and>
   snd (semidefinite_relaxation solve_none [of_rows [[0,1],[1,0]], of_rows [[1,1],[1,1]]] 0
          (Fin 1) (Some 1) Map.empty) ! 0 = of_rows [[0,1],[1,0]] \<and>
   snd (semidefinite_relaxation solve_none [of_rows [[0,1],[1,0]], of_rows [[1,1],[1,1]]] 0
          (Fin 1) (Some 1) Map.empty) ! 1 = of_rows [[0,1],[1,0]]"
proof -
  let ?M = "of_rows [[0,1],[1,0]]"
  let ?W = "of_rows [[1,1],[1,1]]"
  have wf: "wf_matrix ([?M, ?W] ! 0)" by (simp add: wf_matrix_def of_rows_def)
  have ss: "same_shape ([?M, ?W] ! 1) ([?M, ?W] ! 0)" by (simp add: same_shape_def of_rows_def)
  have v: "mk (nrows ([?M, ?W] ! 1)) (ncols ([?M, ?W] ! 1))
             (\<lambda>i j. if feq (ent ([?M, ?W] ! 0) i j) (Fin 0) then Fin 0 else ent ([?M, ?W] ! 1) i j)
           = ?M"
    by (simp add: of_rows_def mk_def ent_def numeral_2_eq_2)
  let ?O = "snd (optspace (opt_space_const (of_rows [[1],[2]]) (of_rows [[1]]) (of_rows [[1],[2]]))
          [?M, ?W] 0 1 500 (Fin (1/1000000)))"
  let ?R = "snd (rank_alternation lra_keep [?M, ?W] 0 1 1 None)"
  let ?S = "snd (semidefinite_relaxation solve_none [?M, ?W] 0 (Fin 1) (Some 1) Map.empty)"
  note t = completers_store_effect[where h = "[?M, ?W]" and m = 0 and W = "Some 1"
      and opt_space = "opt_space_const (of_rows [[1],[2]]) (of_rows [[1]]) (of_rows [[1],[2]])"
      and rank = 1 and niter = 500 and tol = "Fin (1/1000000)" and lra = lra_keep
      and niter' = 1 and tr = None and solve = solve_none and lamda = "Fin 1"
      and kwargs = Map.empty]
  from t have "extends [?M, ?W] ?O" by (rule conjunct1)
  then have "?O ! 1 = [?M, ?W] ! 1" by (rule extends_nth) simp
  then have 1: "?O ! 1 = ?W" by simp
  from t have "extends [?M, ?W] ?R" by (rule conjunct2[THEN conjunct1])
  then have "?R ! 0 = [?M, ?W] ! 0" by (rule extends_nth) simp
  then have 2: "?R ! 0 = ?M" by simp
  from t have "0 < length [?M, ?W] \<and> wf_matrix ([?M, ?W] ! 0) \<longrightarrow> ?S ! 0 = [?M, ?W] ! 0"
    by (rule conjunct2[THEN conjunct2, THEN conjunct2, THEN conjunct2, THEN conjunct1])
  with wf have 3: "?S ! 0 = ?M" by simp
  from t have "\<forall>w<length [?M, ?W]. Some 1 = Some w \<longrightarrow> ?S ! w =
        (if same_shape ([?M, ?W] ! w) ([?M, ?W] ! 0)
         then mk (nrows ([?M, ?W] ! w)) (ncols ([?M, ?W] ! w))
                (\<lambda>i j. if feq (ent ([?M, ?W] ! 0) i j) (Fin 0) then Fin 0
                       else ent ([?M, ?W] ! w) i j)
         else [?M, ?W] ! w)"
    by (rule conjunct2[THEN conjunct2, THEN conjunct2, THEN conjunct2, THEN conjunct2])
  then have "1 < length [?M, ?W] \<longrightarrow> Some (1::nat) = Some 1 \<longrightarrow> ?S ! 1 =
        (if same_shape ([?M, ?W] ! 1) ([?M, ?W] ! 0)
         then mk (nrows ([?M, ?W] ! 1)) (ncols ([?M, ?W] ! 1))
                (\<lambda>i j. if feq (ent ([?M, ?W] ! 0) i j) (Fin 0) then Fin 0
                       else ent ([?M, ?W] ! 1) i j)
         else [?M, ?W] ! 1)"
    by (rule spec)
  then have 4: "?S ! 1 = ?M" unfolding v using ss by simp
  from 1 2 3 4 show ?thesis by blast
qed

text \<open>
  C5 as stated fails: the caller's \<open>W = [[1, 1], [1, 1]]\<close> is \<open>[[0, 1], [1, 0]]\<close> after the
  call on the input \<open>[[0, 1], [1, 0]]\<close>.
\<close>

theorem caller_weights_counterexample:
  "fst (semidefinite_relaxation solve_none [of_rows [[0,1],[1,0]], of_rows [[1,1],[1,1]]] 0
          (Fin 1) (Some 1) Map.empty) = Inr 0 \<and>
   snd (semidefinite_relaxation solve_none [of_rows [[0,1],[1,0]], of_rows [[1,1],[1,1]]] 0
          (Fin 1) (Some 1) Map.empty) ! 1
     \<noteq> [of_rows [[0,1],[1,0]], of_rows [[1,1],[1,1]]] ! 1"
  unfolding run_fallback_weights fst_conv snd_conv
  by (simp add: of_rows_def)

subsection \<open>Inputs the code does not check\<close>

lemma select_pos_all_zero:
  assumes wf: "wf_matrix M" and z: "\<forall>i<nrows M. \<forall>j<ncols M. ent M i j = Fin 0"
  shows "select_pos M = []"
proof -
  have "x = Fin 0" if "x \<in> set (concat (rows M))" for x
  proof -
    from that obtain row where row: "row \<in> set (rows M)" and x: "x \<in> set row" by auto
    from row obtain i where i: "i < length (rows M)" "row = rows M ! i"
      by (auto simp: in_set_conv_nth)
    from x obtain j where j: "j < length row" "x = row ! j"
      by (auto simp: in_set_conv_nth)
    from wf i j have "i < nrows M" "j < ncols M"
      by (auto simp: wf_matrix_def list_all_length)
    with z i j show ?thesis by (simp add: ent_def)
  qed
  then have "\<forall>x\<in>set (concat (rows M)). \<not> fgt x (Fin 0)"
    by (metis fgt_def flt.simps(1) less_irrefl)
  then show ?thesis
    unfolding select_pos_def by (simp only: filter_False)
qed

text \<open>
  C6, as amended. On a well-formed input whose entries are all zero, \<open>rank_alternation\<close>
  raises nothing of its own: the mean of the empty selection is NaN, the working copy is
  filled with NaN and the loop runs on it; with \<open>niter = 0\<close> the NaN-filled copy is
  returned.
\<close>

theorem rank_alternation_all_zero:
  assumes wf: "wf_matrix (h ! m)"
    and z: "\<forall>i<nrows (h ! m). \<forall>j<ncols (h ! m). ent (h ! m) i j = Fin 0"
  shows "rank_alternation lra h m rank niter tr
           = ra_loop lra m rank (nrows (h ! m)) tr niter (length h, [])
               (h @ [mk (nrows (h ! m)) (ncols (h ! m)) (\<lambda>i j. NaN)]) \<and>
         rank_alternation lra h m rank 0 tr
           = (Inr (length h, []), h @ [mk (nrows (h ! m)) (ncols (h ! m)) (\<lambda>i j. NaN)])"
proof -
  have mean: "np_mean (select_pos (h ! m)) = NaN"
    using select_pos_all_zero[OF wf z] by (simp add: np_mean_def)
  have fill: "fill_zeros (h ! m) NaN = mk (nrows (h ! m)) (ncols (h ! m)) (\<lambda>i j. NaN)"
    using z by (auto simp: fill_zeros_def intro!: mk_cong)
  have "rank_alternation lra h m rank n tr
           = ra_loop lra m rank (nrows (h ! m)) tr n (length h, [])
               (h @ [mk (nrows (h ! m)) (ncols (h ! m)) (\<lambda>i j. NaN)])" for n
    by (simp add: rank_alternation_def alloc_def Let_def mean fill)
  then show ?thesis by simp
qed

theorem rank_alternation_all_zero_witness:
  "rank_alternation lra_keep [of_rows [[0,0],[0,0]]] 0 1 1 None
     = ra_loop lra_keep 0 1 2 None 1 (1, [])
         [of_rows [[0,0],[0,0]], Mat 2 2 [[NaN,NaN],[NaN,NaN]]] \<and>
   rank_alternation lra_keep [of_rows [[0,0],[0,0]]] 0 1 0 None
     = (Inr (1, []), [of_rows [[0,0],[0,0]], Mat 2 2 [[NaN,NaN],[NaN,NaN]]])"
proof -
  let ?Z = "of_rows [[0,0],[0,0]]"
  have wf: "wf_matrix ([?Z] ! 0)" by (simp add: wf_matrix_def of_rows_def)
  have z: "\<forall>i<nrows ([?Z] ! 0). \<forall>j<ncols ([?Z] ! 0). ent ([?Z] ! 0) i j = Fin 0"
    by (simp add: of_rows_def ent_def numeral_2_eq_2 less_Suc_eq)
  have v: "mk (nrows ([?Z] ! 0)) (ncols ([?Z] ! 0)) (\<lambda>i j. NaN) = Mat 2 2 [[NaN,NaN],[NaN,NaN]]"
    by (simp add: of_rows_def mk_def numeral_2_eq_2)
  have n: "nrows ([?Z] ! 0) = 2" "length [?Z] = 1" by (simp_all add: of_rows_def)
  note t = rank_alternation_all_zero[OF wf z, of lra_keep 1 1 None]
  note t' = t[unfolded v]
  show ?thesis using t'[unfolded n append.simps] .
qed

text \<open>
  C6 as stated fails: on the 2 by 2 zero matrix the call returns, with NaN entries, for
  \<open>niter = 0\<close> and for \<open>niter = 1\<close>.
\<close>

theorem all_zero_no_error_counterexample:
  "rank_alternation lra_keep [of_rows [[0,0],[0,0]]] 0 1 0 None =
     (Inr (1, []), [of_rows [[0,0],[0,0]], Mat 2 2 [[NaN,NaN],[NaN,NaN]]]) \<and>
   rank_alternation lra_keep [of_rows [[0,0],[0,0]]] 0 1 1 None =
     (Inr (3, []), [of_rows [[0,0],[0,0]], Mat 2 2 [[NaN,NaN],[NaN,NaN]],
                    Mat 2 2 [[Fin 0,NaN],[NaN,Fin 0]], Mat 2 2 [[Fin 0,NaN],[NaN,Fin 0]]])"
  using run_all_zero run_all_zero_niter_zero by (rule conjI[rotated])

lemma ra_body_rank:
  "ra_body lra m rank N tr s h = ra_body (\<lambda>A r. lra A rank) m rank' N tr s h"
  by (simp add: ra_body_def)

lemma ra_loop_rank:
  "ra_loop lra m rank N tr k s h = ra_loop (\<lambda>A r. lra A rank) m rank' N tr k s h"
proof (induction k arbitrary: s h)
  case 0 show ?case by simp
next
  case (Suc k)
  show ?case
    by (simp add: ra_body_rank[of lra m rank N tr s h rank'] Suc.IH split: prod.splits sum.splits)
qed

text \<open>
  C7, as amended. A weight matrix whose shape differs from the input's makes
  \<open>semidefinite_relaxation\<close> raise IndexError at the masking assignment, before anything
  else, with the store untouched. The rank is not examined by \<open>rank_alternation\<close> or
  \<open>optspace\<close>: it reaches the outcome only as the argument handed to the outside routine.
\<close>

theorem no_input_validation:
  "(\<not> same_shape (h ! w) (h ! m) \<longrightarrow>
      semidefinite_relaxation solve h m lamda (Some w) kwargs = (Inl IndexError, h)) \<and>
   rank_alternation lra h m rank niter tr
     = rank_alternation (\<lambda>A r. lra A rank) h m rank' niter tr \<and>
   optspace opt_space h m rank niter' tol
     = optspace (\<lambda>A r. opt_space A rank) h m rank' niter' tol"
proof (intro conjI impI)
  assume "\<not> same_shape (h ! w) (h ! m)"
  then show "semidefinite_relaxation solve h m lamda (Some w) kwargs = (Inl IndexError, h)"
    by (simp add: semidefinite_relaxation_def sdr_weights_given)
next
  show "rank_alternation lra h m rank niter tr
          = rank_alternation (\<lambda>A r. lra A rank) h m rank' niter tr"
    by (simp only: rank_alternation_def ra_loop_rank[of lra m rank _ tr _ _ _ rank'])
next
  show "optspace opt_space h m rank niter' tol
          = optspace (\<lambda>A r. opt_space A rank) h m rank' niter' tol"
    by (simp add: optspace_def)
qed

theorem no_input_validation_witness:
  "semidefinite_relaxation solve_none [of_rows [[0,1],[1,0]], of_rows [[1]]] 0 (Fin 1) (Some 1)
     Map.empty = (Inl IndexError, [of_rows [[0,1],[1,0]], of_rows [[1]]]) \<and>
   rank_alternation lra_keep [of_rows [[0,1],[1,0]], of_rows [[1]]] 0 1 1 None
     = rank_alternation (\<lambda>A r. lra_keep A 1) [of_rows [[0,1],[1,0]], of_rows [[1]]] 0 7 1 None"
proof -
  let ?h = "[of_rows [[0,1],[1,0]], of_rows [[1]]]"
  have ns: "\<not> same_shape (?h ! 1) (?h ! 0)"
    by (simp add: same_shape_def of_rows_def)
  from no_input_validation[where h = ?h and w = 1 and m = 0 and solve = solve_none
      and lamda = "Fin 1" and kwargs = Map.empty and lra = lra_keep and rank = 1 and niter = 1
      and tr = None and rank' = 7] ns
  show ?thesis by blast
qed

text \<open>
  C7 as stated fails: \<open>rank_alternation\<close> returns a matrix for \<open>rank = N = 2\<close>, and for
  the 1 by 2 input \<open>[[0, 5]]\<close> it returns a 2 by 2 matrix (the sum with the transpose
  broadcasts).
\<close>

theorem invalid_input_counterexample:
  "rank_alternation lra_keep [of_rows [[0,1],[1,0]]] 0 2 1 None =
     (Inr (3, []), [of_rows [[0,1],[1,0]], of_rows [[1,1],[1,1]], of_rows [[0,1],[1,0]],
                    of_rows [[0,1],[1,0]]]) \<and>
   rank_alternation lra_keep [of_rows [[0,5]]] 0 1 1 None =
     (Inr (3, []), [of_rows [[0,5]], of_rows [[5,5]], of_rows [[0,5]],
                    of_rows [[0,5/2],[5/2,5]]])"
  using run_rank_two run_not_square by (rule conjI)

end
